theory Spec2Isabelle
  imports Complex_Main "HOL-Library.Word"
begin

section \<open>swapout.c: forcing a process into swap through a small-memory cgroup\<close>

text \<open>
  A shallow embedding of \<^verbatim>\<open>swapout.c\<close>. The program talks to the kernel through a
  handful of library calls (\<^verbatim>\<open>stat\<close>, \<^verbatim>\<open>mkdir\<close>, \<^verbatim>\<open>rmdir\<close>,
  \<^verbatim>\<open>fopen\<close>/\<^verbatim>\<open>fread\<close>/\<^verbatim>\<open>fgets\<close>/\<^verbatim>\<open>fwrite\<close>, \<^verbatim>\<open>nanosleep\<close>).
  The kernel is a parameter of the model: a record of functions over an arbitrary type of
  worlds, each answering one call and returning the next world. Every theorem that is
  stated for an arbitrary \<open>os\<close> therefore holds whatever the file system answers.
  The program state is the world, \<^verbatim>\<open>errno\<close> and the trace of calls made so far, with
  their results.

  Not modelled: the text printed on stdout and stderr (the \<^verbatim>\<open>quiet\<close> flag only
  selects which messages are printed, so the functions below do not take it), the
  conversion of the poll interval into a \<^verbatim>\<open>struct timespec\<close>, and the conversions done
  by \<^verbatim>\<open>getopt_long\<close>, \<^verbatim>\<open>strtol\<close>, \<^verbatim>\<open>atoi\<close> and \<^verbatim>\<open>atof\<close> on the command line:
  the command line enters the model as the sequence of options \<^verbatim>\<open>getopt_long\<close>
  returns, each with its converted argument, followed by the converted positional
  arguments. A \<^verbatim>\<open>double\<close> is a real number here (no NaN, no infinities).
  \<^verbatim>\<open>long\<close> is 64 bits wide and \<^verbatim>\<open>int\<close> 32 bits, as on every Linux target with
  cgroups that the program is written for.
\<close>

subsection \<open>C strings\<close>

text \<open>
  A \<^verbatim>\<open>char\<close> buffer holds the bytes up to the first NUL; \<open>cstr\<close> is what the string
  functions of C see of a buffer.
\<close>

definition NUL :: char where
  "NUL = CHR 0x00"

definition newline :: char where
  "newline = CHR 0x0A"

definition cstr :: "string \<Rightarrow> string" where
  "cstr buf = takeWhile (\<lambda>c. c \<noteq> NUL) buf"

text \<open>\<^verbatim>\<open>rtrim\<close>: drops trailing bytes whose value is at most \<^verbatim>\<open>0x20\<close>.\<close>

definition is_blank :: "char \<Rightarrow> bool" where
  "is_blank c = ((of_char c :: nat) \<le> 32)"

definition rtrim :: "string \<Rightarrow> string" where
  "rtrim s = rev (dropWhile is_blank (rev s))"

definition digit_chars :: string where
  "digit_chars = ''0123456789''"

definition isdigit :: "char \<Rightarrow> bool" where
  "isdigit c = (c \<in> set digit_chars)"

definition digit_val :: "char \<Rightarrow> int" where
  "digit_val c = int (length (takeWhile (\<lambda>d. d \<noteq> c) digit_chars))"

definition LONG_MAX :: int where
  "LONG_MAX = 2 ^ 63 - 1"

text \<open>
  \<^verbatim>\<open>strtol(p, NULL, 10)\<close> where \<^verbatim>\<open>*p\<close> is a digit (the only way the sampler calls it):
  the value of the longest run of digits, \<^verbatim>\<open>LONG_MAX\<close> when it does not fit.
\<close>

definition strtol_digits :: "string \<Rightarrow> int" where
  "strtol_digits p =
     min LONG_MAX (foldl (\<lambda>acc c. acc * 10 + digit_val c) 0 (takeWhile isdigit p))"

text \<open>\<^verbatim>\<open>%d\<close>, \<^verbatim>\<open>%lld\<close>: decimal text of an integer.\<close>

fun show_nat :: "nat \<Rightarrow> string" where
  "show_nat n =
     (if n < 10 then [digit_chars ! n]
      else show_nat (n div 10) @ [digit_chars ! (n mod 10)])"

declare show_nat.simps [simp del]

definition show_int :: "int \<Rightarrow> string" where
  "show_int i = (if i < 0 then CHR ''-'' # show_nat (nat (- i)) else show_nat (nat i))"

subsection \<open>The kernel interface and the trace\<close>

definition EEXIST :: int where "EEXIST = 17"
definition ENOTDIR :: int where "ENOTDIR = 20"
definition ENOENT :: int where "ENOENT = 2"
definition EACCES :: int where "EACCES = 13"

text \<open>Results: \<open>StatOk d\<close> is a successful \<^verbatim>\<open>stat\<close> with \<^verbatim>\<open>S_ISDIR\<close> equal to \<open>d\<close>;
  \<open>Err e\<close> is a failure that sets \<^verbatim>\<open>errno\<close> to \<open>e\<close>.\<close>

datatype stat_res = StatOk bool | StatErr int

datatype sys_res = Ok | Err int

text \<open>\<^verbatim>\<open>fopen(path, "w")\<close> then \<^verbatim>\<open>fwrite\<close>: the open fails, or \<^verbatim>\<open>fwrite\<close> returns a
  count.\<close>

datatype write_res = OpenErr int | Written nat

datatype event =
    EStat string stat_res
  | EMkdir string sys_res
  | ERmdir string sys_res
  | ERead string "string option"
  | EWrite string string write_res
  | ESample string "string option"
  | ESleep real

record 'w os =
  os_stat :: "'w \<Rightarrow> string \<Rightarrow> stat_res \<times> 'w"
  os_mkdir :: "'w \<Rightarrow> string \<Rightarrow> sys_res \<times> 'w"
  os_rmdir :: "'w \<Rightarrow> string \<Rightarrow> sys_res \<times> 'w"
  os_read_all :: "'w \<Rightarrow> string \<Rightarrow> string option \<times> 'w"
  os_write :: "'w \<Rightarrow> string \<Rightarrow> string \<Rightarrow> write_res \<times> 'w"
  os_read_lines :: "'w \<Rightarrow> string \<Rightarrow> string option \<times> 'w"
  os_nanosleep :: "'w \<Rightarrow> real \<Rightarrow> 'w"

record 'w state =
  world :: 'w
  errno :: int
  trace :: "event list"

definition init :: "'w \<Rightarrow> 'w state" where
  "init w = \<lparr>world = w, errno = 0, trace = []\<rparr>"

text \<open>The calls the program has made between two of its states.\<close>

definition events_since :: "'w state \<Rightarrow> 'w state \<Rightarrow> event list" where
  "events_since s s' = drop (length (trace s)) (trace s')"

definition sys_stat :: "'w os \<Rightarrow> 'w state \<Rightarrow> string \<Rightarrow> stat_res \<times> 'w state" where
  "sys_stat os s path =
     (case os_stat os (world s) path of (r, w') \<Rightarrow>
        (r, s\<lparr>world := w',
              errno := (case r of StatErr e \<Rightarrow> e | StatOk _ \<Rightarrow> errno s),
              trace := trace s @ [EStat path r]\<rparr>))"

definition sys_mkdir :: "'w os \<Rightarrow> 'w state \<Rightarrow> string \<Rightarrow> sys_res \<times> 'w state" where
  "sys_mkdir os s path =
     (case os_mkdir os (world s) path of (r, w') \<Rightarrow>
        (r, s\<lparr>world := w',
              errno := (case r of Err e \<Rightarrow> e | Ok \<Rightarrow> errno s),
              trace := trace s @ [EMkdir path r]\<rparr>))"

definition sys_rmdir :: "'w os \<Rightarrow> 'w state \<Rightarrow> string \<Rightarrow> sys_res \<times> 'w state" where
  "sys_rmdir os s path =
     (case os_rmdir os (world s) path of (r, w') \<Rightarrow>
        (r, s\<lparr>world := w',
              errno := (case r of Err e \<Rightarrow> e | Ok \<Rightarrow> errno s),
              trace := trace s @ [ERmdir path r]\<rparr>))"

subsection \<open>Utility helpers\<close>

definition file_exists :: "'w os \<Rightarrow> 'w state \<Rightarrow> string \<Rightarrow> bool \<times> 'w state" where
  "file_exists os s path =
     (case sys_stat os s path of (r, s') \<Rightarrow>
        ((case r of StatOk _ \<Rightarrow> True | StatErr _ \<Rightarrow> False), s'))"

text \<open>
  \<^verbatim>\<open>read_file\<close>: \<open>None\<close> is the \<^verbatim>\<open>NULL\<close> it returns when \<^verbatim>\<open>fopen\<close>, \<^verbatim>\<open>fseek\<close>,
  \<^verbatim>\<open>ftell\<close> or \<^verbatim>\<open>malloc\<close> fails; \<open>Some buf\<close> is the buffer holding the bytes that
  \<^verbatim>\<open>fread\<close> delivered (the terminating NUL is not stored).
\<close>

definition read_file :: "'w os \<Rightarrow> 'w state \<Rightarrow> string \<Rightarrow> string option \<times> 'w state" where
  "read_file os s path =
     (case os_read_all os (world s) path of (r, w') \<Rightarrow>
        (r, s\<lparr>world := w', trace := trace s @ [ERead path r]\<rparr>))"

text \<open>
  \<^verbatim>\<open>write_file\<close>: 0 when \<^verbatim>\<open>fwrite\<close> reports all \<^verbatim>\<open>strlen(val)\<close> bytes, else -1.
  The result of \<^verbatim>\<open>fclose\<close> is not looked at, so \<open>Written n\<close> is what \<^verbatim>\<open>fwrite\<close>
  returned, not what reached the file.
\<close>

definition write_file :: "'w os \<Rightarrow> 'w state \<Rightarrow> string \<Rightarrow> string \<Rightarrow> int \<times> 'w state" where
  "write_file os s path val =
     (case os_write os (world s) path val of (r, w') \<Rightarrow>
        ((case r of OpenErr e \<Rightarrow> -1 | Written n \<Rightarrow> if n = length val then 0 else -1),
         s\<lparr>world := w',
           errno := (case r of OpenErr e \<Rightarrow> e | Written _ \<Rightarrow> errno s),
           trace := trace s @ [EWrite path val r]\<rparr>))"

definition sleep_double :: "'w os \<Rightarrow> 'w state \<Rightarrow> real \<Rightarrow> 'w state" where
  "sleep_double os s secs =
     (if secs \<le> 0 then s
      else s\<lparr>world := os_nanosleep os (world s) secs, trace := trace s @ [ESleep secs]\<rparr>)"

subsection \<open>The memory sampler\<close>

record proc_meminfo_t =
  pid :: int
  rss_kb :: int
  swap_kb :: int

text \<open>
  \<^verbatim>\<open>fgets(line, 256, fp)\<close> until it returns \<^verbatim>\<open>NULL\<close>: each call delivers the bytes up
  to and including the next newline, at most 255 of them. \<open>cur\<close> is the part of the
  current line already read.
\<close>

fun fgets_from :: "string \<Rightarrow> string \<Rightarrow> string list" where
  "fgets_from cur [] = (if cur = [] then [] else [cur])"
| "fgets_from cur (c # cs) =
     (if c = newline \<or> length cur + 1 = 255 then (cur @ [c]) # fgets_from [] cs
      else fgets_from (cur @ [c]) cs)"

definition fgets_lines :: "string \<Rightarrow> string list" where
  "fgets_lines content = fgets_from [] content"

text \<open>The body of the \<^verbatim>\<open>while (fgets ...)\<close> loop, on the pair \<^verbatim>\<open>(rss_kb, swap_kb)\<close>.\<close>

definition scan_line :: "int \<times> int \<Rightarrow> string \<Rightarrow> int \<times> int" where
  "scan_line acc line =
     (let l = cstr line in
      if take 6 l = ''VmRSS:'' then
        (let p = dropWhile (\<lambda>c. \<not> isdigit c) l
         in if p \<noteq> [] then (strtol_digits p, snd acc) else acc)
      else if take 7 l = ''VmSwap:'' then
        (let p = dropWhile (\<lambda>c. \<not> isdigit c) l
         in if p \<noteq> [] then (fst acc, strtol_digits p) else acc)
      else acc)"

definition status_path :: "int \<Rightarrow> string" where
  "status_path p = take 63 (''/proc/'' @ show_int p @ ''/status'')"

text \<open>\<open>None\<close> is the return value -1 (the status file cannot be opened).\<close>

definition read_proc_meminfo ::
  "'w os \<Rightarrow> 'w state \<Rightarrow> int \<Rightarrow> proc_meminfo_t option \<times> 'w state" where
  "read_proc_meminfo os s p =
     (case os_read_lines os (world s) (status_path p) of (r, w') \<Rightarrow>
        ((case r of
            None \<Rightarrow> None
          | Some content \<Rightarrow>
              (case foldl scan_line (0, 0) (fgets_lines content) of (rss, swap) \<Rightarrow>
                 Some \<lparr>pid = p, rss_kb = rss, swap_kb = swap\<rparr>)),
         s\<lparr>world := w', trace := trace s @ [ESample (status_path p) r]\<rparr>))"

subsection \<open>Control-group detection and setup\<close>

datatype cgroup_version_t = CGROUP_NONE | CGROUP_V1 | CGROUP_V2

definition detect_cgroup_version :: "'w os \<Rightarrow> 'w state \<Rightarrow> cgroup_version_t \<times> 'w state" where
  "detect_cgroup_version os s =
     (case file_exists os s ''/sys/fs/cgroup/cgroup.controllers'' of (e2, s1) \<Rightarrow>
        if e2 then (CGROUP_V2, s1)
        else (case file_exists os s1 ''/sys/fs/cgroup/memory'' of (e1, s2) \<Rightarrow>
                if e1 then (CGROUP_V1, s2) else (CGROUP_NONE, s2)))"

definition ensure_dir :: "'w os \<Rightarrow> 'w state \<Rightarrow> string \<Rightarrow> int \<times> 'w state" where
  "ensure_dir os s path =
     (case sys_stat os s path of
        (StatOk isdir, s1) \<Rightarrow> if isdir then (0, s1) else (-1, s1\<lparr>errno := ENOTDIR\<rparr>)
      | (StatErr e, s1) \<Rightarrow>
          (case sys_mkdir os s1 path of
             (Ok, s2) \<Rightarrow> (0, s2)
           | (Err e', s2) \<Rightarrow> (-1, s2)))"

text \<open>
  The character arrays of \<^verbatim>\<open>cgroup_ctx_t\<close> hold NUL-terminated strings; a field of the
  record is the string before the terminator, so \<^verbatim>\<open>group_dir[0] == '\0'\<close> is
  \<open>group_dir ctx = []\<close>.
\<close>

record cgroup_ctx_t =
  ver :: cgroup_version_t
  group_dir :: string
  procs_path :: string
  limit_path :: string
  backup_limit :: string
  had_backup :: int

text \<open>\<^verbatim>\<open>memset(ctx, 0, sizeof(*ctx))\<close>\<close>

definition zero_ctx :: cgroup_ctx_t where
  "zero_ctx = \<lparr>ver = CGROUP_NONE, group_dir = [], procs_path = [], limit_path = [],
               backup_limit = [], had_backup = 0\<rparr>"

text \<open>
  The two branches of \<^verbatim>\<open>setup_cgroup_for_pid\<close> (lines 216-235 for v2, 236-257 for v1)
  are the same statements over different string constants: the directory checked first,
  the per-tool parent, and the name of the limit file. \<open>provision_dirs\<close> is that
  common text; \<^verbatim>\<open>snprintf\<close> truncates to the size of the destination.
\<close>

definition provision_dirs ::
  "'w os \<Rightarrow> 'w state \<Rightarrow> cgroup_ctx_t \<Rightarrow> string \<Rightarrow> string \<Rightarrow> string \<Rightarrow> string
     \<Rightarrow> int \<times> cgroup_ctx_t \<times> 'w state" where
  "provision_dirs os s ctx topdir basedir limit_file pid_str =
     (case ensure_dir os s topdir of (rc1, s1) \<Rightarrow>
        if rc1 \<noteq> 0 \<and> errno s1 \<noteq> EEXIST then (-1, ctx, s1)
        else (case ensure_dir os s1 basedir of (rc2, s2) \<Rightarrow>
          if rc2 \<noteq> 0 \<and> errno s2 \<noteq> EEXIST then (-1, ctx, s2)
          else (let ctx1 = ctx\<lparr>group_dir := take 255 (basedir @ ''/'' @ pid_str)\<rparr>
                in (case ensure_dir os s2 (group_dir ctx1) of (rc3, s3) \<Rightarrow>
                  if rc3 \<noteq> 0 \<and> errno s3 \<noteq> EEXIST then (-1, ctx1, s3)
                  else (0,
                        ctx1\<lparr>procs_path := take 511 (group_dir ctx1 @ ''/cgroup.procs''),
                             limit_path := take 511 (group_dir ctx1 @ ''/'' @ limit_file)\<rparr>,
                        s3)))))"

text \<open>The name \<^verbatim>\<open>snprintf\<close> builds for the per-pid directory in \<open>provision_dirs\<close>.\<close>

definition group_dir_of :: "string \<Rightarrow> string \<Rightarrow> string" where
  "group_dir_of basedir pid_str = take 255 (basedir @ ''/'' @ pid_str)"

text \<open>
  Lines 259-273: the original limit is kept when \<^verbatim>\<open>read_file\<close> returns a buffer:
  \<^verbatim>\<open>rtrim\<close>, then \<^verbatim>\<open>strncpy\<close> of at most 127 bytes into \<^verbatim>\<open>backup_limit[128]\<close>.
\<close>

definition backup_original :: "string option \<Rightarrow> cgroup_ctx_t \<Rightarrow> cgroup_ctx_t" where
  "backup_original orig ctx =
     (case orig of
        Some buf \<Rightarrow> ctx\<lparr>backup_limit := take 127 (rtrim (cstr buf)), had_backup := 1\<rparr>
      | None \<Rightarrow> ctx\<lparr>had_backup := 0\<rparr>)"

text \<open>Lines 259-286: keep the original limit, then move the process into the group.\<close>

definition backup_and_move ::
  "'w os \<Rightarrow> 'w state \<Rightarrow> cgroup_ctx_t \<Rightarrow> int \<Rightarrow> int \<times> cgroup_ctx_t \<times> 'w state" where
  "backup_and_move os s ctx p =
     (case read_file os s (limit_path ctx) of (orig, s1) \<Rightarrow>
        (let ctx1 = backup_original orig ctx in
         (case write_file os s1 (procs_path ctx1) (show_int p @ [newline]) of (wrc, s2) \<Rightarrow>
            if wrc \<noteq> 0 then (-1, ctx1, s2) else (0, ctx1, s2))))"

text \<open>The result is the return value (0 or -1), the context as the function leaves it,
  and the state.\<close>

definition setup_cgroup_for_pid ::
  "'w os \<Rightarrow> 'w state \<Rightarrow> int \<Rightarrow> int \<times> cgroup_ctx_t \<times> 'w state" where
  "setup_cgroup_for_pid os s p =
     (case detect_cgroup_version os s of (v, s1) \<Rightarrow>
        (let ctx = zero_ctx\<lparr>ver := v\<rparr> in
         if v = CGROUP_NONE then (-1, ctx, s1)
         else (case (if v = CGROUP_V2
                     then provision_dirs os s1 ctx ''/sys/fs/cgroup''
                            ''/sys/fs/cgroup/swapout'' ''memory.high'' (show_int p)
                     else provision_dirs os s1 ctx ''/sys/fs/cgroup/memory''
                            ''/sys/fs/cgroup/memory/swapout'' ''memory.limit_in_bytes''
                            (show_int p)) of
                 (rc, ctx2, s2) \<Rightarrow>
                   if rc \<noteq> 0 then (-1, ctx2, s2) else backup_and_move os s2 ctx2 p)))"

subsection \<open>Applying and restoring the limit, cleanup\<close>

text \<open>
  \<^verbatim>\<open>(long long)limit_mb * 1024LL * 1024LL\<close>, printed with \<^verbatim>\<open>%lld\<close>; the product is
  taken in 64 bits, two's complement.
\<close>

definition limit_bytes :: "int \<Rightarrow> int" where
  "limit_bytes mb = sint (word_of_int (mb * 1024 * 1024) :: 64 word)"

definition apply_low_limit ::
  "'w os \<Rightarrow> 'w state \<Rightarrow> cgroup_ctx_t \<Rightarrow> int \<Rightarrow> int \<times> 'w state" where
  "apply_low_limit os s ctx mb =
     write_file os s (limit_path ctx) (show_int (limit_bytes mb) @ [newline])"

text \<open>
  \<^verbatim>\<open>restore_limit\<close> picks the text to write (lines 318-328). The fallback is built in
  \<^verbatim>\<open>char fallback[16]\<close> with \<^verbatim>\<open>strcpy\<close>. \<^verbatim>\<open>strcpy\<close> stores the string and its
  terminating NUL: \<open>''max''\<close> takes 4 bytes, the 19 digits of the v1 constant take 20 and
  do not fit. Writing past the end of an array is undefined in C (and a run-time abort in
  a build with fortified string functions), so the model gives that copy no result:
  \<open>strcpy_into n src\<close> is \<open>None\<close> when \<open>src\<close> and its terminator need more than \<open>n\<close>
  bytes.
\<close>

definition strcpy_into :: "nat \<Rightarrow> string \<Rightarrow> string option" where
  "strcpy_into n src = (if length src + 1 \<le> n then Some src else None)"

definition v1_unlimited :: string where
  "v1_unlimited = ''9223372036854771712''"

definition restore_val :: "cgroup_ctx_t \<Rightarrow> string option" where
  "restore_val ctx =
     (if had_backup ctx \<noteq> 0 \<and> backup_limit ctx \<noteq> [] then Some (backup_limit ctx)
      else if ver ctx = CGROUP_V2 then strcpy_into 16 ''max''
      else strcpy_into 16 v1_unlimited)"

text \<open>
  \<open>None\<close>: the call ran into the undefined copy above. Otherwise the state after the
  write (whose failure is only reported). \<^verbatim>\<open>snprintf(tmp, 128, "%s\n", val)\<close> keeps at
  most 127 bytes.
\<close>

definition restore_limit :: "'w os \<Rightarrow> 'w state \<Rightarrow> cgroup_ctx_t \<Rightarrow> 'w state option" where
  "restore_limit os s ctx =
     (if ver ctx = CGROUP_NONE then Some s
      else (case restore_val ctx of
              None \<Rightarrow> None
            | Some val \<Rightarrow>
                Some (snd (write_file os s (limit_path ctx) (take 127 (val @ [newline]))))))"

definition cleanup_cgroup :: "'w os \<Rightarrow> 'w state \<Rightarrow> cgroup_ctx_t \<Rightarrow> 'w state" where
  "cleanup_cgroup os s ctx =
     (if group_dir ctx = [] then s else snd (sys_rmdir os s (group_dir ctx)))"

subsection \<open>The command line\<close>

record config =
  limit_mb :: int
  target_rss_kb :: int
  interval :: real
  max_iter :: int
  quiet :: bool

definition default_config :: config where
  "default_config = \<lparr>limit_mb = 8, target_rss_kb = 16384, interval = 1, max_iter = 60,
                     quiet = False\<rparr>"

text \<open>
  What \<^verbatim>\<open>getopt_long\<close> returns, one value per call: the option with its argument as
  converted by \<^verbatim>\<open>strtol\<close> (\<^verbatim>\<open>-m\<close>, \<^verbatim>\<open>-r\<close>), \<^verbatim>\<open>atof\<close> (\<^verbatim>\<open>-i\<close>) or \<^verbatim>\<open>atoi\<close>
  (\<^verbatim>\<open>-n\<close>); \<open>Opt_unknown\<close> is the \<^verbatim>\<open>'?'\<close> returned for an unknown option or a
  missing argument.
\<close>

datatype opt = Opt_m int | Opt_r int | Opt_i real | Opt_n int | Opt_q | Opt_h | Opt_unknown

text \<open>The option loop of \<^verbatim>\<open>main\<close>: \<open>Inl rc\<close> is \<^verbatim>\<open>return rc\<close> from inside the loop.\<close>

fun parse_opts :: "opt list \<Rightarrow> config \<Rightarrow> int + config" where
  "parse_opts [] c = Inr c"
| "parse_opts (Opt_m v # rest) c = parse_opts rest (c\<lparr>limit_mb := (if v \<le> 0 then 8 else v)\<rparr>)"
| "parse_opts (Opt_r v # rest) c =
     parse_opts rest (c\<lparr>target_rss_kb := (if v \<le> 0 then 16384 else v)\<rparr>)"
| "parse_opts (Opt_i v # rest) c = parse_opts rest (c\<lparr>interval := (if v \<le> 0 then 1 else v)\<rparr>)"
| "parse_opts (Opt_n v # rest) c = parse_opts rest (c\<lparr>max_iter := (if v \<le> 0 then 60 else v)\<rparr>)"
| "parse_opts (Opt_q # rest) c = parse_opts rest (c\<lparr>quiet := True\<rparr>)"
| "parse_opts (Opt_h # rest) c = Inl 0"
| "parse_opts (Opt_unknown # rest) c = Inl 1"

text \<open>What the option loop keeps true of the configuration: every number is positive.\<close>

definition valid_config :: "config \<Rightarrow> bool" where
  "valid_config c \<longleftrightarrow> 0 < limit_mb c \<and> 0 < target_rss_kb c \<and> 0 < interval c \<and> 0 < max_iter c"

subsection \<open>The poll loop and main\<close>

text \<open>The three ways out of the loop: the \<^verbatim>\<open>break\<close> at line 455, the \<^verbatim>\<open>break\<close> at
  line 467, and the loop condition at line 449.\<close>

datatype stop = ProcessVanished | Converged | TimedOut

function poll_loop ::
  "'w os \<Rightarrow> int \<Rightarrow> int \<Rightarrow> real \<Rightarrow> int \<Rightarrow> int \<Rightarrow> 'w state \<Rightarrow> stop \<times> 'w state" where
  "poll_loop os p target secs maxit iter s =
     (if iter < maxit then
        (case read_proc_meminfo os s p of
           (None, s1) \<Rightarrow> (ProcessVanished, s1)
         | (Some mi, s1) \<Rightarrow>
             if rss_kb mi \<le> target then (Converged, s1)
             else poll_loop os p target secs maxit (iter + 1) (sleep_double os s1 secs))
      else (TimedOut, s))"
  by pat_completeness auto
termination
  by (relation "measure (\<lambda>(os, p, target, secs, maxit, iter, s). nat (maxit - iter))") auto

declare poll_loop.simps [simp del]

definition proc_path :: "int \<Rightarrow> string" where
  "proc_path p = take 63 (''/proc/'' @ show_int p)"

text \<open>
  \<^verbatim>\<open>main\<close> is written here in three pieces. \<open>restore_and_cleanup\<close> is the pair of
  calls \<^verbatim>\<open>restore_limit(&ctx, quiet); cleanup_cgroup(&ctx, quiet);\<close> followed by
  \<^verbatim>\<open>return rc\<close> (lines 437-439 with \<open>rc = 1\<close>, lines 478-484 with \<open>rc = 0\<close>).
  \<open>run_swapout\<close> is \<^verbatim>\<open>main\<close> from line 430 on, and \<open>main\<close> is the part before it.
  The result is the exit code with the state reached; the exit code is \<open>None\<close> when
  the run reached the undefined copy in \<^verbatim>\<open>restore_limit\<close>.
\<close>

definition restore_and_cleanup ::
  "'w os \<Rightarrow> 'w state \<Rightarrow> cgroup_ctx_t \<Rightarrow> int \<Rightarrow> int option \<times> 'w state" where
  "restore_and_cleanup os s ctx rc =
     (case restore_limit os s ctx of
        None \<Rightarrow> (None, s)
      | Some s1 \<Rightarrow> (Some rc, cleanup_cgroup os s1 ctx))"

definition run_swapout ::
  "'w os \<Rightarrow> 'w state \<Rightarrow> config \<Rightarrow> int \<Rightarrow> int option \<times> 'w state" where
  "run_swapout os s1 cfg p =
     (case setup_cgroup_for_pid os s1 p of (rc, ctx, s2) \<Rightarrow>
        if rc \<noteq> 0 then (Some 1, s2)
        else (case apply_low_limit os s2 ctx (limit_mb cfg) of (rc2, s3) \<Rightarrow>
          if rc2 \<noteq> 0 then restore_and_cleanup os s3 ctx 1
          else (case poll_loop os p (target_rss_kb cfg) (interval cfg) (max_iter cfg) 0 s3 of
                  (st, s4) \<Rightarrow> restore_and_cleanup os s4 ctx 0)))"

text \<open>
  \<open>main os w opts args\<close>: \<open>w\<close> is the world the program starts in, \<open>opts\<close> the
  options as above, \<open>args\<close> the values \<^verbatim>\<open>atoi\<close> gives for the arguments from
  \<^verbatim>\<open>argv[optind]\<close> on.
\<close>

definition main :: "'w os \<Rightarrow> 'w \<Rightarrow> opt list \<Rightarrow> int list \<Rightarrow> int option \<times> 'w state" where
  "main os w opts args =
     (case parse_opts opts default_config of
        Inl rc \<Rightarrow> (Some rc, init w)
      | Inr cfg \<Rightarrow>
          (case args of
             [] \<Rightarrow> (Some 1, init w)
           | p # _ \<Rightarrow>
               if p \<le> 0 then (Some 1, init w)
               else (case file_exists os (init w) (proc_path p) of (ex, s1) \<Rightarrow>
                       if \<not> ex then (Some 1, s1) else run_swapout os s1 cfg p)))"

subsection \<open>A small file system to run the program on\<close>

text \<open>
  One instance of the kernel interface, used to run the model on concrete inputs:
  directories, readable files with their content, paths that cannot be opened for
  writing, and the content the status file shows at each successive open (\<open>None\<close>: it
  cannot be opened; after the last entry the process is gone).
\<close>

record sim =
  sim_dirs :: "string list"
  sim_files :: "(string \<times> string) list"
  sim_unwritable :: "string list"
  sim_status :: "string option list"

definition sim_os :: "sim os" where
  "sim_os =
     \<lparr>os_stat = (\<lambda>w p.
          (if p \<in> set (sim_dirs w) then StatOk True
           else if map_of (sim_files w) p \<noteq> None then StatOk False
           else StatErr ENOENT, w)),
      os_mkdir = (\<lambda>w p.
          if p \<in> set (sim_dirs w) \<or> map_of (sim_files w) p \<noteq> None then (Err EEXIST, w)
          else (Ok, w\<lparr>sim_dirs := p # sim_dirs w\<rparr>)),
      os_rmdir = (\<lambda>w p.
          if p \<in> set (sim_dirs w) then (Ok, w\<lparr>sim_dirs := removeAll p (sim_dirs w)\<rparr>)
          else (Err ENOENT, w)),
      os_read_all = (\<lambda>w p. (map_of (sim_files w) p, w)),
      os_write = (\<lambda>w p v.
          if p \<in> set (sim_unwritable w) then (OpenErr EACCES, w)
          else (Written (length v), w\<lparr>sim_files := (p, v) # sim_files w\<rparr>)),
      os_read_lines = (\<lambda>w p.
          case sim_status w of
            [] \<Rightarrow> (None, w)
          | c # cs \<Rightarrow> (c, w\<lparr>sim_status := cs\<rparr>)),
      os_nanosleep = (\<lambda>w secs. w)\<rparr>"

text \<open>A cgroup v2 host and a cgroup v1 host, each with process 1234 alive.\<close>

definition host_v2 :: sim where
  "host_v2 =
     \<lparr>sim_dirs = [''/proc/1234'', ''/sys/fs/cgroup''],
      sim_files = [(''/sys/fs/cgroup/cgroup.controllers'', ''cpu memory'' @ [newline])],
      sim_unwritable = [],
      sim_status = []\<rparr>"

definition host_v1 :: sim where
  "host_v1 =
     \<lparr>sim_dirs = [''/proc/1234'', ''/sys/fs/cgroup'', ''/sys/fs/cgroup/memory''],
      sim_files = [],
      sim_unwritable = [],
      sim_status = []\<rparr>"

definition host_none :: sim where
  "host_none =
     \<lparr>sim_dirs = [''/proc/1234'', ''/sys/fs/cgroup''],
      sim_files = [],
      sim_unwritable = [],
      sim_status = []\<rparr>"

text \<open>A status file as the kernel prints it, with the given resident and swapped sizes.\<close>

definition status_text :: "nat \<Rightarrow> nat \<Rightarrow> string" where
  "status_text rss swap =
     ''Name:'' @ [CHR 0x09] @ ''sleep'' @ [newline] @
     ''VmRSS:'' @ [CHR 0x09] @ ''   '' @ show_nat rss @ '' kB'' @ [newline] @
     ''VmSwap:'' @ [CHR 0x09] @ ''   '' @ show_nat swap @ '' kB'' @ [newline]"

subsection \<open>Reading a trace\<close>

text \<open>The content seen at each open of the status file, in order.\<close>

fun sampled :: "event list \<Rightarrow> string option list" where
  "sampled [] = []"
| "sampled (ESample path c # es) = c # sampled es"
| "sampled (e # es) = sampled es"

text \<open>The resident size the sampler reports for a status file with this content.\<close>

definition status_rss :: "string \<Rightarrow> int" where
  "status_rss content = fst (foldl scan_line (0, 0) (fgets_lines content))"

text \<open>A sample that ends the loop: the file could not be opened, or the resident size
  is at most the target.\<close>

definition stops :: "int \<Rightarrow> string option \<Rightarrow> bool" where
  "stops target c = (case c of None \<Rightarrow> True | Some content \<Rightarrow> status_rss content \<le> target)"

definition sleep_events :: "real \<Rightarrow> event list" where
  "sleep_events secs = (if secs \<le> 0 then [] else [ESleep secs])"

text \<open>One sample followed by the sleep, for each content of the list.\<close>

definition sample_then_sleep :: "string \<Rightarrow> real \<Rightarrow> string option list \<Rightarrow> event list" where
  "sample_then_sleep path secs cs = concat (map (\<lambda>c. ESample path c # sleep_events secs) cs)"

fun is_read :: "event \<Rightarrow> bool" where
  "is_read (ERead path r) = True"
| "is_read e = False"

fun is_write :: "event \<Rightarrow> bool" where
  "is_write (EWrite path v r) = True"
| "is_write e = False"

fun is_rmdir :: "event \<Rightarrow> bool" where
  "is_rmdir (ERmdir path r) = True"
| "is_rmdir e = False"

text \<open>\<open>stat\<close> and \<open>mkdir\<close>: the calls that look for a directory or make one.\<close>

fun is_probe :: "event \<Rightarrow> bool" where
  "is_probe (EStat path r) = True"
| "is_probe (EMkdir path r) = True"
| "is_probe e = False"

text \<open>A directory step that cannot be passed: the path exists and is not a directory, or
  \<open>mkdir\<close> failed with an \<^verbatim>\<open>errno\<close> other than \<^verbatim>\<open>EEXIST\<close>.\<close>

fun dir_refused :: "event \<Rightarrow> bool" where
  "dir_refused (EStat path (StatOk isdir)) = (\<not> isdir)"
| "dir_refused (EMkdir path (Err e)) = (e \<noteq> EEXIST)"
| "dir_refused e = False"

text \<open>A write that \<^verbatim>\<open>write_file\<close> reports as failed.\<close>

fun write_failed :: "event \<Rightarrow> bool" where
  "write_failed (EWrite path v (OpenErr e)) = True"
| "write_failed (EWrite path v (Written n)) = (n \<noteq> length v)"
| "write_failed e = False"

text \<open>
  What one run of the poll loop looks like, for a loop allowed \<open>budget\<close> iterations that
  stopped in \<open>st\<close> after seeing the contents \<open>cs\<close>: every sample that did not stop the
  loop is followed by the sleep; a loop that stops on a sample ends with that sample.
\<close>

definition poll_run ::
  "string \<Rightarrow> real \<Rightarrow> int \<Rightarrow> int \<Rightarrow> stop \<Rightarrow> string option list \<Rightarrow> event list \<Rightarrow> bool" where
  "poll_run path secs target budget st cs evs \<longleftrightarrow>
     evs = (if st = TimedOut then sample_then_sleep path secs cs
            else sample_then_sleep path secs (butlast cs) @ [ESample path (last cs)]) \<and>
     int (length cs) \<le> max 0 budget \<and>
     (st = TimedOut \<longrightarrow> int (length cs) = max 0 budget \<and> (\<forall>c\<in>set cs. \<not> stops target c)) \<and>
     (st \<noteq> TimedOut \<longrightarrow> cs \<noteq> [] \<and> (\<forall>c\<in>set (butlast cs). \<not> stops target c) \<and>
        stops target (last cs) \<and> (st = ProcessVanished \<longleftrightarrow> last cs = None))"

subsection \<open>Example hosts\<close>

text \<open>A one-line status file.\<close>

definition rss_line :: "nat \<Rightarrow> string" where
  "rss_line rss = ''VmRSS: '' @ show_nat rss @ '' kB'' @ [newline]"

text \<open>The v2 host while the resident size goes 20000, 12000, 8000 kB.\<close>

definition host_v2_shrinking :: sim where
  "host_v2_shrinking =
     host_v2\<lparr>sim_status := [Some (rss_line 20000), Some (rss_line 12000), Some (rss_line 8000)]\<rparr>"

text \<open>The v2 host while the resident size stays at 20000 kB.\<close>

definition host_v2_busy :: sim where
  "host_v2_busy = host_v2\<lparr>sim_status := [Some (rss_line 20000)]\<rparr>"

text \<open>The v2 host with a status file that has no size lines (a kernel thread).\<close>

definition host_v2_kthread :: sim where
  "host_v2_kthread = host_v2\<lparr>sim_status := [Some (''Name: kswapd0'' @ [newline])]\<rparr>"

text \<open>A v2 host where the group of process 1234 is left over from an earlier run, and
  its limit file reads as empty.\<close>

definition host_v2_stale :: sim where
  "host_v2_stale =
     \<lparr>sim_dirs = [''/proc/1234'', ''/sys/fs/cgroup'', ''/sys/fs/cgroup/swapout'',
                  ''/sys/fs/cgroup/swapout/1234''],
      sim_files = [(''/sys/fs/cgroup/cgroup.controllers'', ''cpu memory'' @ [newline]),
                   (''/sys/fs/cgroup/swapout/1234/memory.high'', [])],
      sim_unwritable = [],
      sim_status = [Some (rss_line 8000)]\<rparr>"

text \<open>A v2 host where the process cannot be moved into the group.\<close>

definition host_v2_locked :: sim where
  "host_v2_locked = host_v2\<lparr>sim_unwritable := [''/sys/fs/cgroup/swapout/1234/cgroup.procs'']\<rparr>"

text \<open>A v1 host where the group is left over and its limit file holds only a newline,
  and one where the limit file cannot be written.\<close>

definition host_v1_stale :: sim where
  "host_v1_stale =
     \<lparr>sim_dirs = [''/proc/1234'', ''/sys/fs/cgroup'', ''/sys/fs/cgroup/memory'',
                  ''/sys/fs/cgroup/memory/swapout'', ''/sys/fs/cgroup/memory/swapout/1234''],
      sim_files = [(''/sys/fs/cgroup/memory/swapout/1234/memory.limit_in_bytes'', [newline])],
      sim_unwritable = [],
      sim_status = [Some (rss_line 8000)]\<rparr>"

text \<open>A v2 host where the group is left over and its limit file holds one gigabyte.\<close>

definition host_v2_capped :: sim where
  "host_v2_capped =
     host_v2_stale\<lparr>sim_files :=
        [(''/sys/fs/cgroup/cgroup.controllers'', ''cpu memory'' @ [newline]),
         (''/sys/fs/cgroup/swapout/1234/memory.high'', ''1073741824'' @ [newline])]\<rparr>"

text \<open>The v1 host with the process already under the target, and with the process
  gone.\<close>

definition host_v1_done :: sim where
  "host_v1_done = host_v1\<lparr>sim_status := [Some (rss_line 8000)]\<rparr>"

definition host_v1_gone :: sim where
  "host_v1_gone = host_v1\<lparr>sim_status := [None]\<rparr>"

text \<open>A v1 host where the group is left over and its limit file holds a limit.\<close>

definition host_v1_capped :: sim where
  "host_v1_capped =
     host_v1_stale\<lparr>sim_files :=
        [(''/sys/fs/cgroup/memory/swapout/1234/memory.limit_in_bytes'',
          ''1073741824'' @ [newline])]\<rparr>"

definition host_v1_readonly :: sim where
  "host_v1_readonly =
     host_v1\<lparr>sim_unwritable := [''/sys/fs/cgroup/memory/swapout/1234/memory.limit_in_bytes'']\<rparr>"

section \<open>Properties\<close>

subsection \<open>Running the model on the example hosts\<close>

lemmas str_defs = NUL_def newline_def cstr_def is_blank_def rtrim_def digit_chars_def isdigit_def
  digit_val_def LONG_MAX_def strtol_digits_def show_nat.simps show_int_def

lemmas sys_defs = init_def events_since_def sys_stat_def sys_mkdir_def sys_rmdir_def
  file_exists_def read_file_def write_file_def sleep_double_def

lemmas prog_defs = fgets_lines_def scan_line_def status_path_def read_proc_meminfo_def
  detect_cgroup_version_def ensure_dir_def zero_ctx_def provision_dirs_def backup_original_def
  backup_and_move_def setup_cgroup_for_pid_def limit_bytes_def apply_low_limit_def strcpy_into_def v1_unlimited_def
  restore_val_def restore_limit_def cleanup_cgroup_def default_config_def poll_loop.simps
  proc_path_def restore_and_cleanup_def run_swapout_def main_def status_rss_def stops_def

lemmas sim_defs = sim_os_def host_v2_def host_v1_def host_none_def rss_line_def
  host_v2_shrinking_def host_v2_busy_def host_v2_kthread_def host_v2_stale_def host_v2_locked_def host_v1_stale_def
  host_v1_readonly_def host_v1_capped_def host_v2_capped_def host_v1_done_def host_v1_gone_def EEXIST_def ENOENT_def ENOTDIR_def EACCES_def

subsection \<open>The poll loop\<close>

lemma events_since_append: "trace s' = trace s @ evs \<Longrightarrow> events_since s s' = evs"
  by (simp add: events_since_def)

lemma read_proc_meminfo_cases:
  assumes "read_proc_meminfo os s p = (r, s1)"
  obtains (gone) "r = None" "trace s1 = trace s @ [ESample (status_path p) None]"
  | (seen) content mi where "r = Some mi" "rss_kb mi = status_rss content"
      "trace s1 = trace s @ [ESample (status_path p) (Some content)]"
proof (cases "fst (os_read_lines os (world s) (status_path p))")
  case None
  with assms have "r = None" "trace s1 = trace s @ [ESample (status_path p) None]"
    by (auto simp: read_proc_meminfo_def split: prod.splits)
  then show ?thesis by (rule gone)
next
  case (Some content)
  with assms obtain mi where "r = Some mi" "rss_kb mi = status_rss content"
      "trace s1 = trace s @ [ESample (status_path p) (Some content)]"
    by (auto simp: read_proc_meminfo_def status_rss_def split: prod.splits)
  then show ?thesis by (rule seen)
qed

lemma sleep_double_trace:
  "trace (sleep_double os s secs) = trace s @ sleep_events secs"
  by (simp add: sleep_double_def sleep_events_def)

lemma poll_run_stop:
  "stops target c \<Longrightarrow> 0 < budget \<Longrightarrow>
   poll_run path secs target budget (if c = None then ProcessVanished else Converged) [c]
     [ESample path c]"
  by (simp add: poll_run_def sample_then_sleep_def)

lemma poll_run_step:
  assumes r: "poll_run path secs target (budget - 1) st cs evs"
    and ns: "\<not> stops target c" and b: "0 < budget"
  shows "poll_run path secs target budget st (c # cs) (ESample path c # sleep_events secs @ evs)"
proof (cases "st = TimedOut")
  case True
  with r ns b show ?thesis
    by (simp add: poll_run_def sample_then_sleep_def)
next
  case False
  with r have ne: "cs \<noteq> []" by (simp add: poll_run_def)
  with r ns b False show ?thesis
    by (simp add: poll_run_def sample_then_sleep_def)
qed

lemma poll_loop_run:
  "poll_loop os p target secs maxit iter s = (st, s') \<Longrightarrow>
     \<exists>cs evs. trace s' = trace s @ evs \<and>
        poll_run (status_path p) secs target (maxit - iter) st cs evs"
proof (induction os p target secs maxit iter s arbitrary: st s' rule: poll_loop.induct)
  case (1 os p target secs maxit iter s)
  show ?case
  proof (cases "iter < maxit")
    case False
    with "1.prems" have "st = TimedOut" "s' = s"
      by (simp_all add: poll_loop.simps)
    then show ?thesis using False
      by (intro exI[of _ "[]"]) (simp add: poll_run_def sample_then_sleep_def)
  next
    case True
    obtain r s1 where rd: "read_proc_meminfo os s p = (r, s1)"
      by (cases "read_proc_meminfo os s p")
    from rd show ?thesis
    proof (cases rule: read_proc_meminfo_cases)
      case gone
      with "1.prems" True rd have "st = ProcessVanished" "s' = s1"
        by (simp_all add: poll_loop.simps)
      moreover have "poll_run (status_path p) secs target (maxit - iter) ProcessVanished [None]
          [ESample (status_path p) None]"
        using poll_run_stop[of target None "maxit - iter"] True by (simp add: stops_def)
      ultimately show ?thesis using gone by blast
    next
      case (seen content mi)
      show ?thesis
      proof (cases "rss_kb mi \<le> target")
        case le: True
        with "1.prems" True rd seen have "st = Converged" "s' = s1"
          by (simp_all add: poll_loop.simps)
        moreover have "poll_run (status_path p) secs target (maxit - iter) Converged [Some content]
            [ESample (status_path p) (Some content)]"
          using poll_run_stop[of target "Some content" "maxit - iter"] True le seen(2)
          by (simp add: stops_def)
        ultimately show ?thesis using seen by blast
      next
        case gt: False
        with "1.prems" True rd seen
        have rec: "poll_loop os p target secs maxit (iter + 1) (sleep_double os s1 secs) = (st, s')"
          by (simp add: poll_loop.simps)
        from "1.IH"[OF True rd[symmetric] seen(1) gt rec] obtain cs evs where
          tr: "trace s' = trace (sleep_double os s1 secs) @ evs" and
          run: "poll_run (status_path p) secs target (maxit - (iter + 1)) st cs evs"
          by blast
        have ns: "\<not> stops target (Some content)" using seen(2) gt by (simp add: stops_def)
        have "maxit - (iter + 1) = maxit - iter - 1" by simp
        with run have run': "poll_run (status_path p) secs target (maxit - iter - 1) st cs evs"
          by simp
        have "poll_run (status_path p) secs target (maxit - iter) st (Some content # cs)
                (ESample (status_path p) (Some content) # sleep_events secs @ evs)"
          by (rule poll_run_step[OF run' ns]) (use True in simp)
        moreover have "trace s' = trace s @ ESample (status_path p) (Some content) # sleep_events secs @ evs"
          using tr seen(3) by (simp add: sleep_double_trace)
        ultimately show ?thesis by blast
      qed
    qed
  qed
qed


lemma sampled_append: "sampled (xs @ ys) = sampled xs @ sampled ys"
  by (induction xs rule: sampled.induct) simp_all

lemma sampled_sleep_events: "sampled (sleep_events secs) = []"
  by (simp add: sleep_events_def)

lemma sampled_sample_then_sleep: "sampled (sample_then_sleep path secs cs) = cs"
  by (induction cs) (simp_all add: sample_then_sleep_def sampled_append sampled_sleep_events)

lemma poll_run_sampled: "poll_run path secs target budget st cs evs \<Longrightarrow> sampled evs = cs"
  by (cases "st = TimedOut")
     (simp_all add: poll_run_def sampled_append sampled_sample_then_sleep)

lemma filter_no_None: "None \<notin> set xs \<Longrightarrow> filter (\<lambda>c. c \<noteq> None) xs = xs"
proof (induction xs)
  case Nil
  show ?case by simp
next
  case (Cons a xs)
  then show ?case by (cases a) simp_all
qed

lemma set_butlast_last: "cs \<noteq> [] \<Longrightarrow> set cs = insert (last cs) (set (butlast cs))"
  by (induction cs) auto

lemma only_last_stops:
  assumes "\<forall>c\<in>set (butlast cs). \<not> stops target c" "k < length cs" "stops target (cs ! k)"
  shows "Suc k = length cs"
proof (rule ccontr)
  assume "Suc k \<noteq> length cs"
  with assms(2) have k: "k < length (butlast cs)" by simp
  then have "butlast cs ! k \<in> set (butlast cs)" by (rule nth_mem)
  moreover have "butlast cs ! k = cs ! k" using k by (simp add: nth_butlast)
  ultimately show False using assms(1,3) by simp
qed

lemma poll_loop_samples:
  assumes "poll_loop os p target secs maxit iter s = (st, s')"
  shows "poll_run (status_path p) secs target (maxit - iter) st
           (sampled (events_since s s')) (events_since s s')"
proof -
  from poll_loop_run[OF assms] obtain cs evs where
    tr: "trace s' = trace s @ evs" and run: "poll_run (status_path p) secs target (maxit - iter) st cs evs"
    by blast
  from tr have "events_since s s' = evs" by (rule events_since_append)
  moreover from run have "sampled evs = cs" by (rule poll_run_sampled)
  ultimately show ?thesis using run by simp
qed


lemma last_stop_index:
  assumes ne: "cs \<noteq> []" and bl: "\<forall>c\<in>set (butlast cs). \<not> stops target c"
    and la: "stops target (last cs)"
  shows "int (length cs) < maxit \<longleftrightarrow>
           (\<exists>k. int k + 1 < maxit \<and> k < length cs \<and> stops target (cs ! k))"
proof
  assume lt: "int (length cs) < maxit"
  obtain n where n: "length cs = Suc n" using ne by (cases cs) auto
  have "cs ! n = last cs" using ne n by (simp add: last_conv_nth)
  with la lt n have "int n + 1 < maxit \<and> n < length cs \<and> stops target (cs ! n)" by simp
  then show "\<exists>k. int k + 1 < maxit \<and> k < length cs \<and> stops target (cs ! k)" ..
next
  assume "\<exists>k. int k + 1 < maxit \<and> k < length cs \<and> stops target (cs ! k)"
  then obtain k where k: "int k + 1 < maxit" "k < length cs" "stops target (cs ! k)" by blast
  from only_last_stops[OF bl k(2,3)] have "Suc k = length cs" .
  then have "int (length cs) = int k + 1" by simp
  with k(1) show "int (length cs) < maxit" by simp
qed

lemma stop_is_last:
  assumes ne: "cs \<noteq> []" and bl: "\<forall>c\<in>set (butlast cs). \<not> stops target c"
    and x: "x \<in> set cs" "stops target x"
  shows "x = last cs"
proof -
  from x(1) set_butlast_last[OF ne] have "x = last cs \<or> x \<in> set (butlast cs)" by simp
  with bl x(2) show ?thesis by blast
qed

lemma vanished_iff:
  assumes ne: "cs \<noteq> []" and bl: "\<forall>c\<in>set (butlast cs). \<not> stops target c"
  shows "last cs = None \<longleftrightarrow> None \<in> set cs"
proof
  assume "last cs = None"
  then show "None \<in> set cs" using ne last_in_set by metis
next
  assume "None \<in> set cs"
  moreover have "stops target None" by (simp add: stops_def)
  ultimately show "last cs = None" using stop_is_last[OF ne bl] by metis
qed

lemma converged_iff:
  assumes ne: "cs \<noteq> []" and bl: "\<forall>c\<in>set (butlast cs). \<not> stops target c"
    and la: "stops target (last cs)"
  shows "last cs \<noteq> None \<longleftrightarrow> (\<exists>content. Some content \<in> set cs \<and> status_rss content \<le> target)"
proof
  assume "last cs \<noteq> None"
  then obtain content where c: "last cs = Some content" by (cases "last cs") simp_all
  with la have "status_rss content \<le> target" by (simp add: stops_def)
  moreover have "Some content \<in> set cs" using c ne last_in_set by metis
  ultimately show "\<exists>content. Some content \<in> set cs \<and> status_rss content \<le> target" by blast
next
  assume "\<exists>content. Some content \<in> set cs \<and> status_rss content \<le> target"
  then obtain content where c: "Some content \<in> set cs" "status_rss content \<le> target" by blast
  then have "stops target (Some content)" by (simp add: stops_def)
  from stop_is_last[OF ne bl c(1) this] have "last cs = Some content" by simp
  then show "last cs \<noteq> None" by simp
qed

lemma taken_length:
  assumes ne: "cs \<noteq> []" and bl: "\<forall>c\<in>set (butlast cs). \<not> stops target c"
  shows "length (filter (\<lambda>c. c \<noteq> None) cs) = (if last cs = None then length cs - 1 else length cs)"
proof -
  have "stops target None" by (simp add: stops_def)
  with bl have bnn: "None \<notin> set (butlast cs)" by blast
  have "filter (\<lambda>c. c \<noteq> None) (butlast cs @ [last cs]) =
          butlast cs @ (if last cs = None then [] else [last cs])"
    using filter_no_None[OF bnn] by simp
  moreover have "butlast cs @ [last cs] = cs" using ne by simp
  ultimately have "filter (\<lambda>c. c \<noteq> None) cs = butlast cs @ (if last cs = None then [] else [last cs])"
    by simp
  then show ?thesis using ne by simp
qed


text \<open>
  C3. With \<^verbatim>\<open>max_iter\<close> equal to \<open>maxit\<close>, the poll loop opens the status file at most
  \<open>maxit\<close> times. It does so fewer than \<open>maxit\<close> times exactly when one of the samples
  before the last allowed one stops the loop, by a resident size at most the target or by
  a status file that cannot be opened. Counting only the samples that were read, there
  are fewer than \<open>maxit\<close> exactly in that case or when the status file became unreadable
  at any sample. The loop stops as \<open>Converged\<close> exactly when a sample at or under the
  target was seen, as \<open>ProcessVanished\<close> exactly when the open failed.
\<close>


theorem poll_sample_count:
  assumes "poll_loop os p target secs maxit 0 s = (st, s')"
  shows "(let cs = sampled (events_since s s') in
           int (length cs) \<le> max 0 maxit \<and>
           (int (length cs) < maxit \<longleftrightarrow>
              (\<exists>k. int k + 1 < maxit \<and> k < length cs \<and> stops target (cs ! k))) \<and>
           (int (length (filter (\<lambda>c. c \<noteq> None) cs)) < maxit \<longleftrightarrow>
              (\<exists>k. int k + 1 < maxit \<and> k < length cs \<and> stops target (cs ! k)) \<or> None \<in> set cs) \<and>
           (st = Converged \<longleftrightarrow> (\<exists>content. Some content \<in> set cs \<and> status_rss content \<le> target)) \<and>
           (st = ProcessVanished \<longleftrightarrow> None \<in> set cs))"
proof -
  let ?cs = "sampled (events_since s s')"
  let ?early = "\<exists>k. int k + 1 < maxit \<and> k < length ?cs \<and> stops target (?cs ! k)"
  from poll_loop_samples[OF assms]
  have run: "poll_run (status_path p) secs target maxit st ?cs (events_since s s')"
    by simp
  have len: "int (length ?cs) \<le> max 0 maxit" using run by (simp add: poll_run_def)
  have noneS: "stops target None" by (simp add: stops_def)
  show ?thesis
  proof (cases "st = TimedOut")
      case True
      with run have all: "\<forall>c\<in>set ?cs. \<not> stops target c"
        and eq: "int (length ?cs) = max 0 maxit"
        by (simp_all add: poll_run_def)
      have nn: "None \<notin> set ?cs" using all noneS by blast
      then have f: "filter (\<lambda>c. c \<noteq> None) ?cs = ?cs" by (rule filter_no_None)
      have nk: "\<not> ?early" using all nth_mem by blast
      have nc: "\<not> (\<exists>content. Some content \<in> set ?cs \<and> status_rss content \<le> target)"
      proof
        assume "\<exists>content. Some content \<in> set ?cs \<and> status_rss content \<le> target"
        then obtain content where "Some content \<in> set ?cs" "stops target (Some content)"
          by (auto simp: stops_def)
        with all show False by blast
      qed
      have nlt: "\<not> int (length ?cs) < maxit" using eq by simp
      have A: "int (length ?cs) < maxit \<longleftrightarrow> ?early" using nlt nk by blast
      have B: "int (length (filter (\<lambda>c. c \<noteq> None) ?cs)) < maxit \<longleftrightarrow> ?early \<or> None \<in> set ?cs"
        unfolding f using nlt nk nn by blast
      have CV: "st = Converged \<longleftrightarrow> (\<exists>content. Some content \<in> set ?cs \<and> status_rss content \<le> target)"
        using True nc by simp
      have PV: "st = ProcessVanished \<longleftrightarrow> None \<in> set ?cs" using True nn by simp
      show ?thesis unfolding Let_def by (intro conjI len A B CV PV)
    next
      case False
      with run have ne: "?cs \<noteq> []" and bl: "\<forall>c\<in>set (butlast ?cs). \<not> stops target c"
        and la: "stops target (last ?cs)" and pv: "(st = ProcessVanished) = (last ?cs = None)"
        by (simp_all add: poll_run_def)
      have A: "int (length ?cs) < maxit \<longleftrightarrow> ?early"
        by (rule last_stop_index[OF ne bl la])
      have PV: "st = ProcessVanished \<longleftrightarrow> None \<in> set ?cs"
        using pv vanished_iff[OF ne bl] by simp
      have "st = Converged \<longleftrightarrow> last ?cs \<noteq> None"
        using pv False by (cases st) simp_all
      then have CV: "st = Converged \<longleftrightarrow> (\<exists>content. Some content \<in> set ?cs \<and> status_rss content \<le> target)"
        using converged_iff[OF ne bl la] by simp
      have B: "int (length (filter (\<lambda>c. c \<noteq> None) ?cs)) < maxit \<longleftrightarrow> ?early \<or> None \<in> set ?cs"
      proof (cases "last ?cs = None")
        case True
        then have "length (filter (\<lambda>c. c \<noteq> None) ?cs) = length ?cs - 1"
          using taken_length[OF ne bl] by (simp del: not_None_eq)
        moreover have "int (length ?cs - 1) < maxit" using len ne
          by (cases ?cs) simp_all
        moreover have "None \<in> set ?cs" using True vanished_iff[OF ne bl] by simp
        ultimately show ?thesis by simp
      next
        case False
        then have "length (filter (\<lambda>c. c \<noteq> None) ?cs) = length ?cs"
          using taken_length[OF ne bl] by (simp del: not_None_eq)
        moreover have "None \<notin> set ?cs" using False vanished_iff[OF ne bl] by (simp del: not_None_eq)
        ultimately show ?thesis using A by simp
      qed
      show ?thesis unfolding Let_def by (intro conjI len A B CV PV)
  qed
qed

theorem poll_sample_count_witness:
  "fst (poll_loop sim_os 1234 16384 1 60 0 (init host_v2_shrinking)) = Converged \<and>
   sampled (events_since (init host_v2_shrinking)
              (snd (poll_loop sim_os 1234 16384 1 60 0 (init host_v2_shrinking))))
     = [Some (rss_line 20000), Some (rss_line 12000)] \<and>
   (\<exists>k. int k + 1 < 60 \<and> k < length [Some (rss_line 20000), Some (rss_line 12000)] \<and>
        stops 16384 ([Some (rss_line 20000), Some (rss_line 12000)] ! k))"
proof -
  let ?run = "poll_loop sim_os 1234 16384 1 60 0 (init host_v2_shrinking)"
  have st: "fst ?run = Converged"
    by (simp add: str_defs sys_defs prog_defs sim_defs)
  have ev: "sampled (events_since (init host_v2_shrinking) (snd ?run))
              = [Some (rss_line 20000), Some (rss_line 12000)]"
    by (simp add: str_defs sys_defs prog_defs sim_defs)
  have run: "?run = (Converged, snd ?run)"
    using st by (simp add: prod_eq_iff)
  from poll_sample_count[OF run]
  have "(int (length [Some (rss_line 20000), Some (rss_line 12000)]) < 60) =
        (\<exists>k. int k + 1 < 60 \<and> k < length [Some (rss_line 20000), Some (rss_line 12000)] \<and>
             stops 16384 ([Some (rss_line 20000), Some (rss_line 12000)] ! k))"
    by (simp only: Let_def ev)
  then have "\<exists>k. int k + 1 < 60 \<and> k < length [Some (rss_line 20000), Some (rss_line 12000)] \<and>
             stops 16384 ([Some (rss_line 20000), Some (rss_line 12000)] ! k)"
    by simp
  with st ev show ?thesis by blast
qed

lemma sample_then_sleep_pairs:
  "0 < secs \<Longrightarrow>
   sample_then_sleep path secs cs = concat (map (\<lambda>c. [ESample path c, ESleep secs]) cs)"
  by (simp add: sample_then_sleep_def sleep_events_def)

text \<open>
  C5 (as the code has it). With a positive interval, the calls of the poll loop are:
  a sample first; after every sample that does not stop the loop, one sleep of the
  interval; nothing after a sample that stops the loop (resident size at most the
  target, or status file gone). A loop that runs out of iterations has slept after each
  of its samples, the last one included, so it ends with a sleep.
\<close>


theorem poll_sleeps:
  assumes "poll_loop os p target secs maxit 0 s = (st, s')" and "0 < secs"
  shows "(let evs = events_since s s'; cs = sampled evs; path = status_path p in
           evs = (if st = TimedOut then concat (map (\<lambda>c. [ESample path c, ESleep secs]) cs)
                  else concat (map (\<lambda>c. [ESample path c, ESleep secs]) (butlast cs))
                       @ [ESample path (last cs)]) \<and>
           (st = TimedOut) = (list_all (\<lambda>c. \<not> stops target c) cs) \<and>
           (if st = TimedOut then int (length cs) = max 0 maxit else cs \<noteq> []))"
proof -
  let ?cs = "sampled (events_since s s')"
  from poll_loop_samples[OF assms(1)]
  have run: "poll_run (status_path p) secs target maxit st ?cs (events_since s s')"
    by simp
  have shape: "events_since s s' =
      (if st = TimedOut then concat (map (\<lambda>c. [ESample (status_path p) c, ESleep secs]) ?cs)
       else concat (map (\<lambda>c. [ESample (status_path p) c, ESleep secs]) (butlast ?cs))
            @ [ESample (status_path p) (last ?cs)])"
    using run unfolding poll_run_def sample_then_sleep_pairs[OF assms(2)] by (rule conjunct1)
  have tout: "(st = TimedOut) = (list_all (\<lambda>c. \<not> stops target c) ?cs)"
  proof (cases "st = TimedOut")
    case True
    with run show ?thesis by (simp add: poll_run_def list_all_iff)
  next
    case False
    with run have "?cs \<noteq> []" "stops target (last ?cs)" by (simp_all add: poll_run_def)
    then have "\<exists>c\<in>set ?cs. stops target c" using last_in_set by blast
    with False show ?thesis by (simp add: list_all_iff)
  qed
  have cnt: "(if st = TimedOut then int (length ?cs) = max 0 maxit else ?cs \<noteq> [])"
    using run by (simp add: poll_run_def)
  show ?thesis
    unfolding Let_def by (intro conjI shape tout cnt)
qed

theorem poll_sleeps_witness:
  "fst (poll_loop sim_os 1234 16384 1 60 0 (init host_v2_shrinking)) = Converged \<and>
   events_since (init host_v2_shrinking)
      (snd (poll_loop sim_os 1234 16384 1 60 0 (init host_v2_shrinking)))
     = [ESample ''/proc/1234/status'' (Some (rss_line 20000)), ESleep 1,
        ESample ''/proc/1234/status'' (Some (rss_line 12000))]"
proof -
  let ?run = "poll_loop sim_os 1234 16384 1 60 0 (init host_v2_shrinking)"
  have st: "fst ?run = Converged"
    by (simp add: str_defs sys_defs prog_defs sim_defs)
  have cs: "sampled (events_since (init host_v2_shrinking) (snd ?run))
              = [Some (rss_line 20000), Some (rss_line 12000)]"
    by (simp add: str_defs sys_defs prog_defs sim_defs)
  have path: "status_path 1234 = ''/proc/1234/status''"
    by (simp add: str_defs prog_defs)
  have run: "?run = (Converged, snd ?run)"
    using st by (simp add: prod_eq_iff)
  have pos: "(0::real) < 1" by simp
  from poll_sleeps[OF run pos]
  have "events_since (init host_v2_shrinking) (snd ?run)
     = [ESample ''/proc/1234/status'' (Some (rss_line 20000)), ESleep 1,
        ESample ''/proc/1234/status'' (Some (rss_line 12000))]"
    by (simp add: Let_def cs path)
  with st show ?thesis by simp
qed

text \<open>
  C5 as stated does not hold: with \<^verbatim>\<open>max_iter\<close> 1 and a process that stays above the
  target, the single sample is followed by a sleep before the loop gives up.
\<close>

theorem sleep_after_last_sample:
  "fst (poll_loop sim_os 1234 16384 1 1 0 (init host_v2_busy)) = TimedOut \<and>
   events_since (init host_v2_busy) (snd (poll_loop sim_os 1234 16384 1 1 0 (init host_v2_busy)))
     = [ESample ''/proc/1234/status'' (Some (rss_line 20000)), ESleep 1]"
  by (simp add: str_defs sys_defs prog_defs sim_defs)

subsection \<open>The sampler\<close>

lemma take_cstr:
  assumes "take n (cstr l) = x" "length x = n"
  shows "take n l = x"
proof -
  have l: "l = cstr l @ dropWhile (\<lambda>c. c \<noteq> NUL) l"
    by (simp add: cstr_def)
  from assms have "n \<le> length (cstr l)"
    by (metis length_take min.cobounded1)
  then have "take n (cstr l @ dropWhile (\<lambda>c. c \<noteq> NUL) l) = take n (cstr l)"
    by simp
  with l assms(1) show ?thesis by metis
qed

lemma scan_line_other:
  assumes "take 6 line \<noteq> ''VmRSS:''" "take 7 line \<noteq> ''VmSwap:''"
  shows "scan_line acc line = acc"
proof -
  have "take 6 (cstr line) \<noteq> ''VmRSS:''"
    using take_cstr[of 6 line "''VmRSS:''"] assms(1) by auto
  moreover have "take 7 (cstr line) \<noteq> ''VmSwap:''"
    using take_cstr[of 7 line "''VmSwap:''"] assms(2) by auto
  ultimately show ?thesis by (simp add: scan_line_def)
qed

lemma foldl_scan_other:
  "list_all (\<lambda>line. take 6 line \<noteq> ''VmRSS:'' \<and> take 7 line \<noteq> ''VmSwap:'') ls \<Longrightarrow>
   foldl scan_line acc ls = acc"
  by (induction ls arbitrary: acc) (simp_all add: scan_line_other)

text \<open>On a status file as the kernel prints it, the sampler finds both sizes.\<close>

lemma scan_status_text:
  "foldl scan_line (0, 0) (fgets_lines (status_text 20000 17)) = (20000, 17)"
  by (simp add: status_text_def str_defs fgets_lines_def scan_line_def)

lemma parse_opts_valid:
  "parse_opts opts c = Inr cfg \<Longrightarrow> valid_config c \<Longrightarrow> valid_config cfg"
  by (induction opts c rule: parse_opts.induct) (auto simp: valid_config_def)

lemma valid_default_config: "valid_config default_config"
  by (simp add: valid_config_def default_config_def)

text \<open>
  C10. When the status file opens and none of the lines \<^verbatim>\<open>fgets\<close> delivers starts
  with \<^verbatim>\<open>VmRSS:\<close> or \<^verbatim>\<open>VmSwap:\<close>, the sampler succeeds with both sizes 0. The
  target that comes out of the option loop is positive whatever the options were, so
  with that configuration the loop, at whatever iteration it takes this sample, stops
  on it as \<open>Converged\<close>, having made no other call. (For a file whose lines are shorter than 255 bytes the lines
  \<^verbatim>\<open>fgets\<close> delivers are the lines of the file.)
\<close>

theorem sample_without_size_lines:
  assumes rd: "os_read_lines os (world s) (status_path p) = (Some content, w')"
    and nl: "list_all (\<lambda>line. take 6 line \<noteq> ''VmRSS:'' \<and> take 7 line \<noteq> ''VmSwap:'')
               (fgets_lines content)"
    and cfg: "parse_opts opts default_config = Inr cfg"
  shows "fst (read_proc_meminfo os s p) = Some \<lparr>pid = p, rss_kb = 0, swap_kb = 0\<rparr> \<and>
         0 \<le> target_rss_kb cfg \<and> 0 < max_iter cfg \<and>
         (\<forall>iter. iter < max_iter cfg \<longrightarrow>
            fst (poll_loop os p (target_rss_kb cfg) (interval cfg) (max_iter cfg) iter s)
              = Converged \<and>
            events_since s
              (snd (poll_loop os p (target_rss_kb cfg) (interval cfg) (max_iter cfg) iter s))
              = [ESample (status_path p) (Some content)])"
proof -
  from parse_opts_valid[OF cfg valid_default_config]
  have tgt: "0 < target_rss_kb cfg" and it: "0 < max_iter cfg"
    by (simp_all add: valid_config_def)
  have zero: "foldl scan_line (0, 0) (fgets_lines content) = (0, 0)"
    using nl by (rule foldl_scan_other)
  have sample: "read_proc_meminfo os s p =
      (Some \<lparr>pid = p, rss_kb = 0, swap_kb = 0\<rparr>,
       s\<lparr>world := w', trace := trace s @ [ESample (status_path p) (Some content)]\<rparr>)"
    using rd zero by (simp add: read_proc_meminfo_def)
  have loop: "poll_loop os p (target_rss_kb cfg) (interval cfg) (max_iter cfg) iter s =
      (Converged, s\<lparr>world := w', trace := trace s @ [ESample (status_path p) (Some content)]\<rparr>)"
    if "iter < max_iter cfg" for iter
    using sample tgt that by (subst poll_loop.simps) simp
  show ?thesis
    using sample loop tgt it by (simp add: events_since_def)
qed

theorem sample_without_size_lines_witness:
  "fst (read_proc_meminfo sim_os (init host_v2_kthread) 1234)
     = Some \<lparr>pid = 1234, rss_kb = 0, swap_kb = 0\<rparr> \<and>
   fst (poll_loop sim_os 1234 16384 1 60 0 (init host_v2_kthread)) = Converged \<and>
   events_since (init host_v2_kthread) (snd (poll_loop sim_os 1234 16384 1 60 0 (init host_v2_kthread)))
     = [ESample ''/proc/1234/status'' (Some (''Name: kswapd0'' @ [newline]))]"
proof -
  have rd: "os_read_lines sim_os (world (init host_v2_kthread)) (status_path 1234)
              = (Some (''Name: kswapd0'' @ [newline]), host_v2_kthread\<lparr>sim_status := []\<rparr>)"
    by (simp add: sim_defs sys_defs)
  have nl: "list_all (\<lambda>line. take 6 line \<noteq> ''VmRSS:'' \<and> take 7 line \<noteq> ''VmSwap:'')
              (fgets_lines (''Name: kswapd0'' @ [newline]))"
    by (simp add: fgets_lines_def newline_def)
  have cfg: "parse_opts [] default_config = Inr default_config"
    by simp
  have path: "status_path 1234 = ''/proc/1234/status''"
    by (simp add: str_defs prog_defs)
  from sample_without_size_lines[OF rd nl cfg]
  have "fst (read_proc_meminfo sim_os (init host_v2_kthread) 1234)
          = Some \<lparr>pid = 1234, rss_kb = 0, swap_kb = 0\<rparr>"
    and "\<forall>iter. iter < max_iter default_config \<longrightarrow>
            fst (poll_loop sim_os 1234 (target_rss_kb default_config) (interval default_config)
                   (max_iter default_config) iter (init host_v2_kthread)) = Converged \<and>
            events_since (init host_v2_kthread)
              (snd (poll_loop sim_os 1234 (target_rss_kb default_config) (interval default_config)
                      (max_iter default_config) iter (init host_v2_kthread)))
              = [ESample (status_path 1234) (Some (''Name: kswapd0'' @ [newline]))]"
    by blast+
  from this(1) this(2)[rule_format, of 0] show ?thesis
    by (simp add: default_config_def path)
qed

subsection \<open>Provisioning\<close>

lemma sys_stat_run:
  assumes "sys_stat os s path = (r, s1)"
  shows "trace s1 = trace s @ [EStat path r]"
    and "r = StatErr e \<Longrightarrow> errno s1 = e"
  using assms by (auto simp: sys_stat_def split: prod.splits)

lemma sys_mkdir_run:
  assumes "sys_mkdir os s path = (r, s1)"
  shows "trace s1 = trace s @ [EMkdir path r]"
    and "r = Err e \<Longrightarrow> errno s1 = e"
  using assms by (auto simp: sys_mkdir_def split: prod.splits)

lemma file_exists_run:
  assumes "file_exists os s path = (b, s1)"
  shows "\<exists>r. trace s1 = trace s @ [EStat path r]"
  using assms by (auto simp: file_exists_def sys_stat_def split: prod.splits)

lemma detect_run:
  assumes "detect_cgroup_version os s = (v, s1)"
  shows "\<exists>probes. trace s1 = trace s @ probes \<and> list_all is_probe probes"
proof -
  obtain e2 sa where a: "file_exists os s ''/sys/fs/cgroup/cgroup.controllers'' = (e2, sa)"
    by (cases "file_exists os s ''/sys/fs/cgroup/cgroup.controllers''")
  obtain e1 sb where b: "file_exists os sa ''/sys/fs/cgroup/memory'' = (e1, sb)"
    by (cases "file_exists os sa ''/sys/fs/cgroup/memory''")
  from file_exists_run[OF a] obtain r2 where
    ta: "trace sa = trace s @ [EStat ''/sys/fs/cgroup/cgroup.controllers'' r2]" by blast
  from file_exists_run[OF b] obtain r1 where
    tb: "trace sb = trace sa @ [EStat ''/sys/fs/cgroup/memory'' r1]" by blast
  show ?thesis
  proof (cases e2)
    case True
    with assms a have "s1 = sa" by (simp add: detect_cgroup_version_def)
    with ta show ?thesis by simp
  next
    case False
    with assms a b have "s1 = sb" by (simp add: detect_cgroup_version_def split: if_splits)
    with ta tb show ?thesis by simp
  qed
qed

lemma ensure_dir_run:
  assumes "ensure_dir os s path = (rc, s1)"
  shows "\<exists>probes. trace s1 = trace s @ probes \<and> list_all is_probe probes \<and>
           (rc \<noteq> 0 \<and> errno s1 \<noteq> EEXIST \<longrightarrow> list_ex dir_refused probes)"
proof -
  obtain r sa where st: "sys_stat os s path = (r, sa)" by (cases "sys_stat os s path")
  note ta = sys_stat_run(1)[OF st]
  show ?thesis
  proof (cases r)
    case (StatOk isdir)
    show ?thesis
    proof (cases isdir)
      case True
      with assms st StatOk have "s1 = sa" "rc = 0" by (simp_all add: ensure_dir_def)
      with ta show ?thesis by simp
    next
      case False
      with assms st StatOk have "trace s1 = trace sa" by (auto simp: ensure_dir_def)
      with ta StatOk False show ?thesis by simp
    qed
  next
    case (StatErr e)
    obtain m sb where mk: "sys_mkdir os sa path = (m, sb)" by (cases "sys_mkdir os sa path")
    note tb = sys_mkdir_run(1)[OF mk]
    show ?thesis
    proof (cases m)
      case Ok
      with assms st StatErr mk have "s1 = sb" "rc = 0" by (simp_all add: ensure_dir_def)
      with ta tb show ?thesis by simp
    next
      case (Err e')
      with assms st StatErr mk have s1: "s1 = sb" by (simp add: ensure_dir_def)
      from sys_mkdir_run(2)[OF mk Err] have "errno sb = e'" .
      with s1 ta tb Err show ?thesis by auto
    qed
  qed
qed

lemma provision_dirs_run:
  assumes "provision_dirs os s ctx topdir basedir limit_file pid_str = (rc, ctx', s')"
  shows "\<exists>probes. trace s' = trace s @ probes \<and> list_all is_probe probes \<and>
           (rc = 0 \<or> rc = -1) \<and>
           (rc \<noteq> 0 \<longrightarrow> list_ex dir_refused probes \<and>
              (ctx' = ctx \<or> ctx' = ctx\<lparr>group_dir := group_dir_of basedir pid_str\<rparr>)) \<and>
           (rc = 0 \<longrightarrow> ctx' = ctx
               \<lparr>group_dir := group_dir_of basedir pid_str,
                procs_path := take 511 (group_dir_of basedir pid_str @ ''/cgroup.procs''),
                limit_path := take 511 (group_dir_of basedir pid_str @ ''/'' @ limit_file)\<rparr>)"
proof -
  obtain rc1 sa where a: "ensure_dir os s topdir = (rc1, sa)" by (cases "ensure_dir os s topdir")
  obtain rc2 sb where b: "ensure_dir os sa basedir = (rc2, sb)" by (cases "ensure_dir os sa basedir")
  obtain rc3 sc where c: "ensure_dir os sb (group_dir_of basedir pid_str) = (rc3, sc)"
    by (cases "ensure_dir os sb (group_dir_of basedir pid_str)")
  from ensure_dir_run[OF a] obtain pa where
    pa: "trace sa = trace s @ pa" "list_all is_probe pa"
        "rc1 \<noteq> 0 \<and> errno sa \<noteq> EEXIST \<longrightarrow> list_ex dir_refused pa" by blast
  from ensure_dir_run[OF b] obtain pb where
    pb: "trace sb = trace sa @ pb" "list_all is_probe pb"
        "rc2 \<noteq> 0 \<and> errno sb \<noteq> EEXIST \<longrightarrow> list_ex dir_refused pb" by blast
  from ensure_dir_run[OF c] obtain pc where
    pc: "trace sc = trace sb @ pc" "list_all is_probe pc"
        "rc3 \<noteq> 0 \<and> errno sc \<noteq> EEXIST \<longrightarrow> list_ex dir_refused pc" by blast
  show ?thesis
  proof (cases "rc1 \<noteq> 0 \<and> errno sa \<noteq> EEXIST")
    case True
    with assms a have "rc = -1" "ctx' = ctx" "s' = sa" by (simp_all add: provision_dirs_def)
    with pa True show ?thesis by (intro exI[of _ pa]) simp
  next
    case p1: False
    show ?thesis
    proof (cases "rc2 \<noteq> 0 \<and> errno sb \<noteq> EEXIST")
      case True
      with assms a b p1 have "rc = -1" "ctx' = ctx" "s' = sb"
        by (simp_all add: provision_dirs_def)
      with pa pb True show ?thesis by (intro exI[of _ "pa @ pb"]) simp
    next
      case p2: False
      show ?thesis
      proof (cases "rc3 \<noteq> 0 \<and> errno sc \<noteq> EEXIST")
        case True
        with assms a b c p1 p2 have "rc = -1"
          "ctx' = ctx\<lparr>group_dir := group_dir_of basedir pid_str\<rparr>" "s' = sc"
          by (simp_all add: provision_dirs_def group_dir_of_def Let_def)
        with pa pb pc True show ?thesis by (intro exI[of _ "pa @ pb @ pc"]) simp
      next
        case p3: False
        with assms a b c p1 p2 have "rc = 0"
          "ctx' = ctx\<lparr>group_dir := group_dir_of basedir pid_str,
                procs_path := take 511 (group_dir_of basedir pid_str @ ''/cgroup.procs''),
                limit_path := take 511 (group_dir_of basedir pid_str @ ''/'' @ limit_file)\<rparr>"
          "s' = sc"
          by (auto simp: provision_dirs_def group_dir_of_def Let_def)
        with pa pb pc show ?thesis by (intro exI[of _ "pa @ pb @ pc"]) simp
      qed
    qed
  qed
qed

lemma write_file_run:
  assumes "write_file os s path v = (rc, s1)"
  shows "\<exists>r. trace s1 = trace s @ [EWrite path v r] \<and>
             rc = (if write_failed (EWrite path v r) then -1 else 0)"
proof -
  obtain r w' where o: "os_write os (world s) path v = (r, w')"
    by (cases "os_write os (world s) path v")
  with assms have "trace s1 = trace s @ [EWrite path v r]"
    by (auto simp: write_file_def)
  moreover from o assms have "rc = (if write_failed (EWrite path v r) then -1 else 0)"
    by (cases r) (auto simp: write_file_def)
  ultimately show ?thesis by blast
qed

lemma read_file_run:
  assumes "read_file os s path = (orig, s1)"
  shows "trace s1 = trace s @ [ERead path orig]"
  using assms by (auto simp: read_file_def split: prod.splits)

lemma backup_original_fields:
  "ver (backup_original orig ctx) = ver ctx"
  "group_dir (backup_original orig ctx) = group_dir ctx"
  "procs_path (backup_original orig ctx) = procs_path ctx"
  "limit_path (backup_original orig ctx) = limit_path ctx"
  "had_backup (backup_original orig ctx) = (if orig = None then 0 else 1)"
  "backup_limit (backup_original orig ctx) =
     (case orig of None \<Rightarrow> backup_limit ctx | Some buf \<Rightarrow> take 127 (rtrim (cstr buf)))"
  by (cases orig; simp add: backup_original_def)+

lemma backup_and_move_run:
  assumes "backup_and_move os s ctx p = (rc, ctx', s')"
  shows "\<exists>orig r. trace s' = trace s @ [ERead (limit_path ctx) orig,
                                         EWrite (procs_path ctx) (show_int p @ [newline]) r] \<and>
           ctx' = backup_original orig ctx \<and>
           rc = (if write_failed (EWrite (procs_path ctx) (show_int p @ [newline]) r) then -1 else 0)"
proof -
  obtain orig sa where rd: "read_file os s (limit_path ctx) = (orig, sa)"
    by (cases "read_file os s (limit_path ctx)")
  obtain wrc sb where wr: "write_file os sa (procs_path ctx) (show_int p @ [newline]) = (wrc, sb)"
    by (cases "write_file os sa (procs_path ctx) (show_int p @ [newline])")
  from write_file_run[OF wr] obtain r where
    r: "trace sb = trace sa @ [EWrite (procs_path ctx) (show_int p @ [newline]) r]"
       "wrc = (if write_failed (EWrite (procs_path ctx) (show_int p @ [newline]) r) then -1 else 0)"
    by blast
  from assms rd wr have res: "s' = sb" "ctx' = backup_original orig ctx"
      "rc = (if wrc \<noteq> 0 then -1 else 0)"
    by (auto simp: backup_and_move_def Let_def backup_original_fields split: if_splits)
  from res(3) r(2) have "rc = (if write_failed (EWrite (procs_path ctx) (show_int p @ [newline]) r) then -1 else 0)"
    by simp
  with res r(1) read_file_run[OF rd] show ?thesis by auto
qed

lemma group_dir_of_nonempty: "basedir \<noteq> [] \<Longrightarrow> group_dir_of basedir pid_str \<noteq> []"
  by (cases basedir) (simp_all add: group_dir_of_def)

lemma setup_cases:
  assumes det: "detect_cgroup_version os s = (v, s1)"
    and su: "setup_cgroup_for_pid os s p = (rc, ctx, s')"
  obtains (no_controller) "v = CGROUP_NONE" "rc = -1" "s' = s1" "ctx = zero_ctx"
  | (refused) probes where "v \<noteq> CGROUP_NONE" "ver ctx = v" "rc = -1"
      "trace s' = trace s1 @ probes" "list_all is_probe probes" "list_ex dir_refused probes"
      "had_backup ctx = 0" "backup_limit ctx = []"
  | (moved) probes orig r where "v \<noteq> CGROUP_NONE" "ver ctx = v"
      "trace s' = trace s1 @ probes @ [ERead (limit_path ctx) orig,
                                         EWrite (procs_path ctx) (show_int p @ [newline]) r]"
      "list_all is_probe probes" "group_dir ctx \<noteq> []"
      "had_backup ctx = (if orig = None then 0 else 1)"
      "backup_limit ctx = (case orig of None \<Rightarrow> [] | Some buf \<Rightarrow> take 127 (rtrim (cstr buf)))"
      "rc = (if write_failed (EWrite (procs_path ctx) (show_int p @ [newline]) r) then -1 else 0)"
proof (cases "v = CGROUP_NONE")
  case True
  with det su have "rc = -1" "s' = s1" "ctx = zero_ctx"
    by (simp_all add: setup_cgroup_for_pid_def zero_ctx_def)
  with True show ?thesis by (rule no_controller)
next
  case False
  define topdir where "topdir = (if v = CGROUP_V2 then ''/sys/fs/cgroup'' else ''/sys/fs/cgroup/memory'')"
  define basedir where "basedir = (if v = CGROUP_V2 then ''/sys/fs/cgroup/swapout''
                                   else ''/sys/fs/cgroup/memory/swapout'')"
  define lim where "lim = (if v = CGROUP_V2 then ''memory.high'' else ''memory.limit_in_bytes'')"
  define ctx0 where "ctx0 = zero_ctx\<lparr>ver := v\<rparr>"
  obtain rc2 ctx2 s2 where pr: "provision_dirs os s1 ctx0 topdir basedir lim (show_int p) = (rc2, ctx2, s2)"
    by (cases "provision_dirs os s1 ctx0 topdir basedir lim (show_int p)")
  have su': "(rc, ctx, s') = (if rc2 \<noteq> 0 then (-1, ctx2, s2) else backup_and_move os s2 ctx2 p)"
    using det su False pr
    by (simp add: setup_cgroup_for_pid_def topdir_def basedir_def lim_def ctx0_def split: if_splits)
  have bne: "basedir \<noteq> []" by (simp add: basedir_def)
  from provision_dirs_run[OF pr] obtain probes where
    pp: "trace s2 = trace s1 @ probes" "list_all is_probe probes" "rc2 = 0 \<or> rc2 = -1"
        "rc2 \<noteq> 0 \<longrightarrow> list_ex dir_refused probes \<and>
            (ctx2 = ctx0 \<or> ctx2 = ctx0\<lparr>group_dir := group_dir_of basedir (show_int p)\<rparr>)"
        "rc2 = 0 \<longrightarrow> ctx2 = ctx0
               \<lparr>group_dir := group_dir_of basedir (show_int p),
                procs_path := take 511 (group_dir_of basedir (show_int p) @ ''/cgroup.procs''),
                limit_path := take 511 (group_dir_of basedir (show_int p) @ ''/'' @ lim)\<rparr>"
    by blast
  show ?thesis
  proof (cases "rc2 = 0")
    case nz: False
    with su' have res: "rc = -1" "ctx = ctx2" "s' = s2" by simp_all
    from pp(4) nz have ref: "list_ex dir_refused probes"
      and c2: "ctx2 = ctx0 \<or> ctx2 = ctx0\<lparr>group_dir := group_dir_of basedir (show_int p)\<rparr>"
      by simp_all
    from c2 have "ver ctx2 = v" "had_backup ctx2 = 0" "backup_limit ctx2 = []"
      by (auto simp: ctx0_def zero_ctx_def)
    with res pp ref False show ?thesis by (intro refused[of probes]) simp_all
  next
    case z: True
    with su' have bm: "backup_and_move os s2 ctx2 p = (rc, ctx, s')" by simp
    from pp(5) z have c2: "ctx2 = ctx0
               \<lparr>group_dir := group_dir_of basedir (show_int p),
                procs_path := take 511 (group_dir_of basedir (show_int p) @ ''/cgroup.procs''),
                limit_path := take 511 (group_dir_of basedir (show_int p) @ ''/'' @ lim)\<rparr>"
      by simp
    have f2: "ver ctx2 = v" "group_dir ctx2 \<noteq> []" "backup_limit ctx2 = []"
      using c2 group_dir_of_nonempty[OF bne] by (simp_all add: ctx0_def zero_ctx_def)
    from backup_and_move_run[OF bm] obtain orig r where
      br: "trace s' = trace s2 @ [ERead (limit_path ctx2) orig,
                                   EWrite (procs_path ctx2) (show_int p @ [newline]) r]"
          "ctx = backup_original orig ctx2"
          "rc = (if write_failed (EWrite (procs_path ctx2) (show_int p @ [newline]) r) then -1 else 0)"
      by blast
    have same: "limit_path ctx = limit_path ctx2" "procs_path ctx = procs_path ctx2"
      "ver ctx = v" "group_dir ctx \<noteq> []"
      using br(2) f2 by (simp_all add: backup_original_fields)
    have bk: "had_backup ctx = (if orig = None then 0 else 1)"
      "backup_limit ctx = (case orig of None \<Rightarrow> [] | Some buf \<Rightarrow> take 127 (rtrim (cstr buf)))"
      using br(2) f2(3) by (simp_all add: backup_original_fields split: option.splits)
    have tr: "trace s' = trace s1 @ probes @ [ERead (limit_path ctx) orig,
                                         EWrite (procs_path ctx) (show_int p @ [newline]) r]"
      using br(1) pp(1) same by simp
    have rcv: "rc = (if write_failed (EWrite (procs_path ctx) (show_int p @ [newline]) r) then -1 else 0)"
      using br(3) same by simp
    show ?thesis
      by (rule moved[OF False same(3) tr pp(2) same(4) bk rcv])
  qed
qed

subsection \<open>No controller\<close>

text \<open>
  C7. On a run that gets as far as looking for a controller (the option loop ends
  without \<^verbatim>\<open>-h\<close> or a bad option, the pid argument is positive and \<^verbatim>\<open>/proc/<pid>\<close>
  exists), when neither \<^verbatim>\<open>/sys/fs/cgroup/cgroup.controllers\<close> nor
  \<^verbatim>\<open>/sys/fs/cgroup/memory\<close> can be \<^verbatim>\<open>stat\<close>ed, the program exits with code 1 and the
  three \<^verbatim>\<open>stat\<close> calls are all it has done: no directory was made, no file written.
\<close>

theorem no_controller_no_mutation:
  assumes "parse_opts opts default_config = Inr cfg" and "0 < p"
    and "os_stat os w (proc_path p) = (StatOk d, w1)"
    and "os_stat os w1 ''/sys/fs/cgroup/cgroup.controllers'' = (StatErr e2, w2)"
    and "os_stat os w2 ''/sys/fs/cgroup/memory'' = (StatErr e1, w3)"
  shows "fst (main os w opts (p # rest)) = Some 1 \<and>
         trace (snd (main os w opts (p # rest))) =
           [EStat (proc_path p) (StatOk d),
            EStat ''/sys/fs/cgroup/cgroup.controllers'' (StatErr e2),
            EStat ''/sys/fs/cgroup/memory'' (StatErr e1)] \<and>
         world (snd (main os w opts (p # rest))) = w3"
  using assms
  by (simp add: main_def run_swapout_def setup_cgroup_for_pid_def detect_cgroup_version_def
      file_exists_def sys_stat_def init_def)

theorem no_controller_no_mutation_witness:
  "fst (main sim_os host_none [] [1234]) = Some 1 \<and>
   trace (snd (main sim_os host_none [] [1234])) =
     [EStat ''/proc/1234'' (StatOk True),
      EStat ''/sys/fs/cgroup/cgroup.controllers'' (StatErr ENOENT),
      EStat ''/sys/fs/cgroup/memory'' (StatErr ENOENT)] \<and>
   world (snd (main sim_os host_none [] [1234])) = host_none"
proof -
  have path: "proc_path 1234 = ''/proc/1234''"
    by (simp add: str_defs prog_defs)
  have cfg: "parse_opts [] default_config = Inr default_config" by simp
  have p: "(0::int) < 1234" by simp
  have a: "os_stat sim_os host_none (proc_path 1234) = (StatOk True, host_none)"
    by (simp add: path sim_defs)
  have b: "os_stat sim_os host_none ''/sys/fs/cgroup/cgroup.controllers'' = (StatErr ENOENT, host_none)"
    by (simp add: sim_os_def host_none_def)
  have c: "os_stat sim_os host_none ''/sys/fs/cgroup/memory'' = (StatErr ENOENT, host_none)"
    by (simp add: sim_os_def host_none_def)
  from no_controller_no_mutation[OF cfg p a b c, of "[]"] show ?thesis
    by (simp add: path)
qed

subsection \<open>Directories that are already there\<close>

lemma ensure_dir_existing:
  "sys_stat os s path = (StatOk True, s1) \<Longrightarrow> ensure_dir os s path = (0, s1)"
  by (simp add: ensure_dir_def)

text \<open>
  C8. Once a controller is detected, provisioning reports an error only when a
  directory step is refused (the path exists and is not a directory, or \<^verbatim>\<open>mkdir\<close>
  fails with an \<^verbatim>\<open>errno\<close> other than \<^verbatim>\<open>EEXIST\<close>) or the pid write fails. A directory
  that is already there is never the reason: \<^verbatim>\<open>ensure_dir\<close> returns 0 for it without
  calling \<^verbatim>\<open>mkdir\<close>, and a \<^verbatim>\<open>mkdir\<close> that loses a race and fails with \<^verbatim>\<open>EEXIST\<close> is
  let through.
\<close>

theorem existing_directories_accepted:
  assumes det: "detect_cgroup_version os s = (v, s1)" and v: "v \<noteq> CGROUP_NONE"
    and su: "setup_cgroup_for_pid os s p = (rc, ctx, s')"
    and nr: "\<not> list_ex dir_refused (events_since s1 s')"
    and nw: "\<not> list_ex write_failed (events_since s1 s')"
  shows "rc = 0 \<and>
         (\<forall>path sa sb. sys_stat os sa path = (StatOk True, sb) \<longrightarrow> ensure_dir os sa path = (0, sb))"
proof -
  have "rc = 0"
  using det su
  proof (cases rule: setup_cases)
    case no_controller
    with v show ?thesis by simp
  next
    case (refused probes)
    then have "events_since s1 s' = probes" by (simp add: events_since_def)
    with refused nr show ?thesis by simp
  next
    case (moved probes orig r)
    then have "events_since s1 s' = probes @ [ERead (limit_path ctx) orig,
                  EWrite (procs_path ctx) (show_int p @ [newline]) r]"
      by (simp add: events_since_def)
    with nw have "\<not> write_failed (EWrite (procs_path ctx) (show_int p @ [newline]) r)"
      by simp
    with moved show ?thesis by simp
  qed
  then show ?thesis using ensure_dir_existing by blast
qed

theorem existing_directories_accepted_witness:
  "fst (setup_cgroup_for_pid sim_os (init host_v2_stale) 1234) = 0 \<and>
   events_since (init host_v2_stale) (snd (snd (setup_cgroup_for_pid sim_os (init host_v2_stale) 1234)))
     = [EStat ''/sys/fs/cgroup/cgroup.controllers'' (StatOk False),
        EStat ''/sys/fs/cgroup'' (StatOk True),
        EStat ''/sys/fs/cgroup/swapout'' (StatOk True),
        EStat ''/sys/fs/cgroup/swapout/1234'' (StatOk True),
        ERead ''/sys/fs/cgroup/swapout/1234/memory.high'' (Some []),
        EWrite ''/sys/fs/cgroup/swapout/1234/cgroup.procs'' (''1234'' @ [newline]) (Written 5)]"
proof -
  let ?s = "init host_v2_stale"
  let ?d = "detect_cgroup_version sim_os ?s"
  let ?r = "setup_cgroup_for_pid sim_os ?s 1234"
  have dv: "fst ?d = CGROUP_V2" by (simp add: str_defs sys_defs prog_defs sim_defs)
  have det: "?d = (CGROUP_V2, snd ?d)" using dv by (simp add: prod_eq_iff)
  have v: "CGROUP_V2 \<noteq> CGROUP_NONE" by simp
  have su: "?r = (fst ?r, fst (snd ?r), snd (snd ?r))" by simp
  have ev: "events_since ?s (snd (snd ?r))
     = [EStat ''/sys/fs/cgroup/cgroup.controllers'' (StatOk False),
        EStat ''/sys/fs/cgroup'' (StatOk True),
        EStat ''/sys/fs/cgroup/swapout'' (StatOk True),
        EStat ''/sys/fs/cgroup/swapout/1234'' (StatOk True),
        ERead ''/sys/fs/cgroup/swapout/1234/memory.high'' (Some []),
        EWrite ''/sys/fs/cgroup/swapout/1234/cgroup.procs'' (''1234'' @ [newline]) (Written 5)]"
    by (simp add: str_defs sys_defs prog_defs sim_defs group_dir_of_def)
  have ev1: "events_since (snd ?d) (snd (snd ?r))
     = [EStat ''/sys/fs/cgroup'' (StatOk True),
        EStat ''/sys/fs/cgroup/swapout'' (StatOk True),
        EStat ''/sys/fs/cgroup/swapout/1234'' (StatOk True),
        ERead ''/sys/fs/cgroup/swapout/1234/memory.high'' (Some []),
        EWrite ''/sys/fs/cgroup/swapout/1234/cgroup.procs'' (''1234'' @ [newline]) (Written 5)]"
    by (simp add: str_defs sys_defs prog_defs sim_defs group_dir_of_def)
  have nr: "\<not> list_ex dir_refused (events_since (snd ?d) (snd (snd ?r)))"
    by (simp add: ev1)
  have nw: "\<not> list_ex write_failed (events_since (snd ?d) (snd (snd ?r)))"
    by (simp add: ev1)
  from existing_directories_accepted[OF det v su nr nw] have "fst ?r = 0" by blast
  with ev show ?thesis by simp
qed

subsection \<open>Restore and cleanup\<close>

lemma restore_limit_written:
  assumes "restore_val ctx = Some v" "ver ctx \<noteq> CGROUP_NONE"
  shows "\<exists>s1 r. restore_limit os s ctx = Some s1 \<and>
           trace s1 = trace s @ [EWrite (limit_path ctx) (take 127 (v @ [newline])) r]"
proof -
  obtain rc s1 where w: "write_file os s (limit_path ctx) (take 127 (v @ [newline])) = (rc, s1)"
    by (cases "write_file os s (limit_path ctx) (take 127 (v @ [newline]))")
  from write_file_run[OF w] obtain r where
    "trace s1 = trace s @ [EWrite (limit_path ctx) (take 127 (v @ [newline])) r]" by blast
  moreover have "restore_limit os s ctx = Some s1"
    using assms w by (simp add: restore_limit_def)
  ultimately show ?thesis by blast
qed

lemma restore_limit_run:
  assumes "restore_limit os s ctx = Some s1"
  shows "\<exists>evs. trace s1 = trace s @ evs \<and> list_all is_write evs"
proof (cases "ver ctx = CGROUP_NONE")
  case True
  with assms have "s1 = s" by (simp add: restore_limit_def)
  then show ?thesis by simp
next
  case False
  with assms obtain v where v: "restore_val ctx = Some v"
    by (cases "restore_val ctx") (simp_all add: restore_limit_def)
  from restore_limit_written[OF v False, of os s] assms show ?thesis by auto
qed

lemma cleanup_cgroup_run:
  "\<exists>r. trace (cleanup_cgroup os s ctx) =
          trace s @ (if group_dir ctx = [] then [] else [ERmdir (group_dir ctx) r])"
  by (auto simp: cleanup_cgroup_def sys_rmdir_def split: prod.splits)

lemma restore_and_cleanup_defined:
  assumes "restore_val ctx = Some v" "ver ctx \<noteq> CGROUP_NONE" "group_dir ctx \<noteq> []"
  shows "\<exists>s' r1 r2. restore_and_cleanup os s ctx rc = (Some rc, s') \<and>
           trace s' = trace s @ [EWrite (limit_path ctx) (take 127 (v @ [newline])) r1,
                                 ERmdir (group_dir ctx) r2]"
proof -
  from restore_limit_written[OF assms(1,2), of os s] obtain s1 r1 where
    a: "restore_limit os s ctx = Some s1"
       "trace s1 = trace s @ [EWrite (limit_path ctx) (take 127 (v @ [newline])) r1]" by blast
  from cleanup_cgroup_run[of os s1 ctx] assms(3) obtain r2 where
    b: "trace (cleanup_cgroup os s1 ctx) = trace s1 @ [ERmdir (group_dir ctx) r2]" by auto
  have "restore_and_cleanup os s ctx rc = (Some rc, cleanup_cgroup os s1 ctx)"
    using a(1) by (simp add: restore_and_cleanup_def)
  with a(2) b show ?thesis by auto
qed

lemma restore_and_cleanup_undefined:
  assumes "restore_val ctx = None" "ver ctx \<noteq> CGROUP_NONE"
  shows "restore_and_cleanup os s ctx rc = (None, s)"
  using assms by (simp add: restore_and_cleanup_def restore_limit_def)

lemma restore_and_cleanup_run:
  assumes "restore_and_cleanup os s ctx rc = (r, s')"
  shows "\<exists>evs. trace s' = trace s @ evs \<and> list_all (\<lambda>e. \<not> is_read e) evs"
proof (cases "restore_limit os s ctx")
  case None
  with assms have "s' = s" by (simp add: restore_and_cleanup_def)
  then show ?thesis by simp
next
  case (Some s1)
  from restore_limit_run[OF Some] obtain evs where
    e: "trace s1 = trace s @ evs" "list_all is_write evs" by blast
  from cleanup_cgroup_run[of os s1 ctx] obtain r2 where
    c: "trace (cleanup_cgroup os s1 ctx) =
          trace s1 @ (if group_dir ctx = [] then [] else [ERmdir (group_dir ctx) r2])" by blast
  from assms Some have "s' = cleanup_cgroup os s1 ctx" by (simp add: restore_and_cleanup_def)
  moreover have "list_all (\<lambda>e. \<not> is_read e) evs"
    using e(2) by (induction evs) (auto elim: is_write.elims)
  ultimately show ?thesis using e(1) c
    by (intro exI[of _ "evs @ (if group_dir ctx = [] then [] else [ERmdir (group_dir ctx) r2])"])
       simp
qed

lemma probes_not_read_write:
  "list_all is_probe evs \<Longrightarrow>
     list_all (\<lambda>e. \<not> is_write e) evs \<and> list_all (\<lambda>e. \<not> is_read e) evs \<and> filter is_read evs = []"
  by (induction evs) (auto elim: is_probe.elims)

lemma sample_then_sleep_quiet:
  "list_all (\<lambda>e. \<not> is_read e \<and> \<not> is_write e \<and> \<not> is_rmdir e) (sample_then_sleep path secs cs)"
  by (induction cs) (simp_all add: sample_then_sleep_def sleep_events_def)

lemma poll_loop_quiet:
  assumes "poll_loop os p target secs maxit iter s = (st, s')"
  shows "\<exists>evs. trace s' = trace s @ evs \<and>
           list_all (\<lambda>e. \<not> is_read e \<and> \<not> is_write e \<and> \<not> is_rmdir e) evs"
proof -
  from poll_loop_run[OF assms] obtain cs evs where
    tr: "trace s' = trace s @ evs" and
    run: "poll_run (status_path p) secs target (maxit - iter) st cs evs" by blast
  from run have "list_all (\<lambda>e. \<not> is_read e \<and> \<not> is_write e \<and> \<not> is_rmdir e) evs"
    using sample_then_sleep_quiet[of "status_path p" secs cs]
          sample_then_sleep_quiet[of "status_path p" secs "butlast cs"]
    by (cases "st = TimedOut") (simp_all add: poll_run_def)
  with tr show ?thesis by blast
qed

subsection \<open>The whole run after the process check\<close>

lemma run_swapout_order:
  "\<exists>pre post. trace (snd (run_swapout os s cfg p)) = trace s @ pre @ post \<and>
      list_all (\<lambda>e. \<not> is_write e) pre \<and> list_all (\<lambda>e. \<not> is_read e) post \<and>
      length (filter is_read pre) \<le> 1"
proof -
  obtain v s0 where det: "detect_cgroup_version os s = (v, s0)"
    by (cases "detect_cgroup_version os s")
  obtain rc ctx s1 where su: "setup_cgroup_for_pid os s p = (rc, ctx, s1)"
    by (cases "setup_cgroup_for_pid os s p") auto
  from detect_run[OF det] obtain pd where
    pd: "trace s0 = trace s @ pd" "list_all is_probe pd" by blast
  note qd = probes_not_read_write[OF pd(2)]
  from det su show ?thesis
  proof (cases rule: setup_cases)
    case no_controller
    with su have "run_swapout os s cfg p = (Some 1, s0)" by (simp add: run_swapout_def)
    with pd qd show ?thesis by (intro exI[of _ pd] exI[of _ "[]"]) simp
  next
    case (refused probes)
    note qp = probes_not_read_write[OF refused(5)]
    from refused su have "run_swapout os s cfg p = (Some 1, s1)" by (simp add: run_swapout_def)
    with pd qd qp refused(4) show ?thesis
      by (intro exI[of _ "pd @ probes"] exI[of _ "[]"]) simp
  next
    case (moved probes orig r)
    note qp = probes_not_read_write[OF moved(4)]
    let ?rd = "ERead (limit_path ctx) orig"
    let ?mv = "EWrite (procs_path ctx) (show_int p @ [newline]) r"
    have pre: "list_all (\<lambda>e. \<not> is_write e) (pd @ probes @ [?rd])"
      "length (filter is_read (pd @ probes @ [?rd])) \<le> 1"
      using qd qp by simp_all
    have t1: "trace s1 = trace s @ (pd @ probes @ [?rd]) @ [?mv]"
      using moved(3) pd(1) by simp
    show ?thesis
    proof (cases "rc = 0")
      case False
      with su have "run_swapout os s cfg p = (Some 1, s1)" by (simp add: run_swapout_def)
      with t1 pre show ?thesis
        by (intro exI[of _ "pd @ probes @ [?rd]"] exI[of _ "[?mv]"]) simp
    next
      case True
      obtain rc2 s2 where ap: "apply_low_limit os s1 ctx (limit_mb cfg) = (rc2, s2)"
        by (cases "apply_low_limit os s1 ctx (limit_mb cfg)")
      from write_file_run[OF ap[unfolded apply_low_limit_def]] obtain ra where
        t2: "trace s2 = trace s1 @ [EWrite (limit_path ctx) (show_int (limit_bytes (limit_mb cfg)) @ [newline]) ra]"
        by blast
      let ?ap = "EWrite (limit_path ctx) (show_int (limit_bytes (limit_mb cfg)) @ [newline]) ra"
      show ?thesis
      proof (cases "rc2 = 0")
        case False
        obtain res s4 where rcl: "restore_and_cleanup os s2 ctx 1 = (res, s4)"
          by (cases "restore_and_cleanup os s2 ctx 1")
        from restore_and_cleanup_run[OF rcl] obtain evs where
          e: "trace s4 = trace s2 @ evs" "list_all (\<lambda>e. \<not> is_read e) evs" by blast
        have "run_swapout os s cfg p = (res, s4)"
          using su True ap False rcl by (simp add: run_swapout_def)
        moreover have "trace s4 = trace s @ (pd @ probes @ [?rd]) @ ([?mv, ?ap] @ evs)"
          using e(1) t2 t1 by simp
        moreover have "list_all (\<lambda>e. \<not> is_read e) ([?mv, ?ap] @ evs)" using e(2) by simp
        ultimately show ?thesis using pre
          by (intro exI[of _ "pd @ probes @ [?rd]"] exI[of _ "[?mv, ?ap] @ evs"]) simp
      next
        case z2: True
        obtain st s3 where pl: "poll_loop os p (target_rss_kb cfg) (interval cfg) (max_iter cfg) 0 s2 = (st, s3)"
          by (cases "poll_loop os p (target_rss_kb cfg) (interval cfg) (max_iter cfg) 0 s2")
        from poll_loop_quiet[OF pl] obtain pevs where
          pe: "trace s3 = trace s2 @ pevs"
              "list_all (\<lambda>e. \<not> is_read e \<and> \<not> is_write e \<and> \<not> is_rmdir e) pevs" by blast
        obtain res s4 where rcl: "restore_and_cleanup os s3 ctx 0 = (res, s4)"
          by (cases "restore_and_cleanup os s3 ctx 0")
        from restore_and_cleanup_run[OF rcl] obtain evs where
          e: "trace s4 = trace s3 @ evs" "list_all (\<lambda>e. \<not> is_read e) evs" by blast
        have "run_swapout os s cfg p = (res, s4)"
          using su True ap z2 pl rcl by (simp add: run_swapout_def)
        moreover have "trace s4 = trace s @ (pd @ probes @ [?rd]) @ ([?mv, ?ap] @ pevs @ evs)"
          using e(1) pe(1) t2 t1 by simp
        moreover have "list_all (\<lambda>e. \<not> is_read e) pevs"
          using pe(2) by (simp add: list_all_iff)
        then have "list_all (\<lambda>e. \<not> is_read e) ([?mv, ?ap] @ pevs @ evs)" using e(2) by simp
        ultimately show ?thesis using pre
          by (intro exI[of _ "pd @ probes @ [?rd]"] exI[of _ "[?mv, ?ap] @ pevs @ evs"]) simp
      qed
    qed
  qed
qed

text \<open>
  C6 (as the code has it). After provisioning that succeeded, \<^verbatim>\<open>group_dir\<close> is not
  empty. The converse does not hold: \<^verbatim>\<open>group_dir\<close> is filled in as soon as the name
  of the per-pid directory is computed and is never cleared, so it is also non-empty
  whenever the pid write was attempted, whether or not it failed. The original limit
  is read at most once in a run, and that read comes before every write the program
  makes: the calls of a run split into a part without writes that holds at most one
  read, followed by a part without reads.
\<close>

theorem provisioning_context:
  assumes su: "setup_cgroup_for_pid os s p = (rc, ctx, s1)"
  shows "(rc = 0 \<longrightarrow> group_dir ctx \<noteq> []) \<and>
         (list_ex is_write (events_since s s1) \<longrightarrow> group_dir ctx \<noteq> []) \<and>
         (\<exists>pre post. events_since s (snd (run_swapout os s cfg p)) = pre @ post \<and>
            list_all (\<lambda>e. \<not> is_write e) pre \<and> list_all (\<lambda>e. \<not> is_read e) post \<and>
            length (filter is_read pre) \<le> 1)"
proof -
  obtain v s0 where det: "detect_cgroup_version os s = (v, s0)"
    by (cases "detect_cgroup_version os s")
  from detect_run[OF det] obtain pd where
    pd: "trace s0 = trace s @ pd" "list_all is_probe pd" by blast
  note qd = probes_not_read_write[OF pd(2)]
  have a: "(rc = 0 \<longrightarrow> group_dir ctx \<noteq> []) \<and>
           (list_ex is_write (events_since s s1) \<longrightarrow> group_dir ctx \<noteq> [])"
    using det su
  proof (cases rule: setup_cases)
    case no_controller
    then have "events_since s s1 = pd" using pd(1) by (simp add: events_since_def)
    with no_controller qd show ?thesis by (auto simp: list_all_iff list_ex_iff)
  next
    case (refused probes)
    then have "events_since s s1 = pd @ probes" using pd(1) by (simp add: events_since_def)
    with refused qd probes_not_read_write[OF refused(5)] show ?thesis
      by (auto simp: list_all_iff list_ex_iff)
  next
    case (moved probes orig r)
    then show ?thesis by simp
  qed
  from run_swapout_order[of os s cfg p] obtain pre post where
    o: "trace (snd (run_swapout os s cfg p)) = trace s @ pre @ post"
       "list_all (\<lambda>e. \<not> is_write e) pre" "list_all (\<lambda>e. \<not> is_read e) post"
       "length (filter is_read pre) \<le> 1" by blast
  from o(1) have "events_since s (snd (run_swapout os s cfg p)) = pre @ post"
    by (simp add: events_since_def)
  with o(2-4) a show ?thesis by blast
qed

theorem provisioning_context_witness:
  "fst (setup_cgroup_for_pid sim_os (init host_v2_shrinking) 1234) = 0 \<and>
   group_dir (fst (snd (setup_cgroup_for_pid sim_os (init host_v2_shrinking) 1234)))
     = ''/sys/fs/cgroup/swapout/1234'' \<and>
   (\<exists>pre post.
      events_since (init host_v2_shrinking)
        (snd (run_swapout sim_os (init host_v2_shrinking) default_config 1234)) = pre @ post \<and>
      list_all (\<lambda>e. \<not> is_write e) pre \<and> list_all (\<lambda>e. \<not> is_read e) post \<and>
      length (filter is_read pre) \<le> 1)"
proof -
  let ?r = "setup_cgroup_for_pid sim_os (init host_v2_shrinking) 1234"
  have su: "?r = (fst ?r, fst (snd ?r), snd (snd ?r))" by simp
  have rc: "fst ?r = 0"
    by (simp add: str_defs sys_defs prog_defs sim_defs)
  have gd: "group_dir (fst (snd ?r)) = ''/sys/fs/cgroup/swapout/1234''"
    by (simp add: str_defs sys_defs prog_defs sim_defs)
  from provisioning_context[OF su, of default_config] rc gd show ?thesis
    by blast
qed

text \<open>
  C6 as stated does not hold: when the process cannot be moved into the group,
  provisioning fails and leaves \<^verbatim>\<open>group_dir\<close> set.
\<close>

theorem group_dir_set_after_failed_move:
  "fst (setup_cgroup_for_pid sim_os (init host_v2_locked) 1234) = -1 \<and>
   group_dir (fst (snd (setup_cgroup_for_pid sim_os (init host_v2_locked) 1234)))
     = ''/sys/fs/cgroup/swapout/1234'' \<and>
   filter is_write (trace (snd (snd (setup_cgroup_for_pid sim_os (init host_v2_locked) 1234))))
     = [EWrite ''/sys/fs/cgroup/swapout/1234/cgroup.procs'' (''1234'' @ [newline]) (OpenErr EACCES)]"
  by (simp add: str_defs sys_defs prog_defs sim_defs)

subsection \<open>What restore writes\<close>

lemma setup_ok_context:
  assumes "setup_cgroup_for_pid os s p = (0, ctx, s1)"
  shows "ver ctx \<noteq> CGROUP_NONE \<and> group_dir ctx \<noteq> [] \<and>
         (\<exists>orig. filter is_read (events_since s s1) = [ERead (limit_path ctx) orig] \<and>
            had_backup ctx = (if orig = None then 0 else 1) \<and>
            backup_limit ctx = (case orig of None \<Rightarrow> [] | Some buf \<Rightarrow> take 127 (rtrim (cstr buf))))"
proof -
  obtain v s0 where det: "detect_cgroup_version os s = (v, s0)"
    by (cases "detect_cgroup_version os s")
  from detect_run[OF det] obtain pd where
    pd: "trace s0 = trace s @ pd" "list_all is_probe pd" by blast
  note qd = probes_not_read_write[OF pd(2)]
  from det assms show ?thesis
  proof (cases rule: setup_cases)
    case no_controller
    then show ?thesis by simp
  next
    case (refused probes)
    then show ?thesis by simp
  next
    case (moved probes orig r)
    note qp = probes_not_read_write[OF moved(4)]
    have "events_since s s1 = pd @ probes @ [ERead (limit_path ctx) orig,
            EWrite (procs_path ctx) (show_int p @ [newline]) r]"
      using moved(3) pd(1) by (simp add: events_since_def)
    then have "filter is_read (events_since s s1) = [ERead (limit_path ctx) orig]"
      using qd qp by simp
    with moved show ?thesis by blast
  qed
qed

lemma restore_val_None:
  "restore_val ctx = None \<longleftrightarrow>
     (had_backup ctx = 0 \<or> backup_limit ctx = []) \<and> ver ctx \<noteq> CGROUP_V2"
  by (simp add: restore_val_def strcpy_into_def v1_unlimited_def)

text \<open>
  C2 (as the code has it). After a provisioning that succeeded, the limit file was read
  exactly once; the captured text is the buffer up to its first NUL, without trailing
  blanks, cut to 127 bytes. From any later state, restore writes that text followed by a
  newline (the whole cut to 127 bytes) when the file was readable and the captured text is
  not empty. When the file was unreadable, or the captured text is empty, restore on
  cgroup v2 writes \<^verbatim>\<open>max\<close> and a newline. (What the same case does on cgroup v1 is the
  subject of C9.)
\<close>

theorem restore_writes_back:
  assumes su: "setup_cgroup_for_pid os s p = (0, ctx, s1)"
  shows "(\<exists>orig. filter is_read (events_since s s1) = [ERead (limit_path ctx) orig] \<and>
            had_backup ctx = (if orig = None then 0 else 1) \<and>
            backup_limit ctx = (case orig of None \<Rightarrow> [] | Some buf \<Rightarrow> take 127 (rtrim (cstr buf)))) \<and>
         (had_backup ctx \<noteq> 0 \<and> backup_limit ctx \<noteq> [] \<longrightarrow>
            (\<exists>s3 r. restore_limit os s2 ctx = Some s3 \<and>
               events_since s2 s3 =
                 [EWrite (limit_path ctx) (take 127 (backup_limit ctx @ [newline])) r])) \<and>
         ((had_backup ctx = 0 \<or> backup_limit ctx = []) \<and> ver ctx = CGROUP_V2 \<longrightarrow>
            (\<exists>s3 r. restore_limit os s2 ctx = Some s3 \<and>
               events_since s2 s3 = [EWrite (limit_path ctx) (''max'' @ [newline]) r]))"
proof -
  from setup_ok_context[OF su] have v: "ver ctx \<noteq> CGROUP_NONE"
    and cap: "\<exists>orig. filter is_read (events_since s s1) = [ERead (limit_path ctx) orig] \<and>
            had_backup ctx = (if orig = None then 0 else 1) \<and>
            backup_limit ctx = (case orig of None \<Rightarrow> [] | Some buf \<Rightarrow> take 127 (rtrim (cstr buf)))"
    by simp_all
  have kept: "had_backup ctx \<noteq> 0 \<and> backup_limit ctx \<noteq> [] \<longrightarrow>
            (\<exists>s3 r. restore_limit os s2 ctx = Some s3 \<and>
               events_since s2 s3 =
                 [EWrite (limit_path ctx) (take 127 (backup_limit ctx @ [newline])) r])"
  proof
    assume "had_backup ctx \<noteq> 0 \<and> backup_limit ctx \<noteq> []"
    then have "restore_val ctx = Some (backup_limit ctx)" by (simp add: restore_val_def)
    from restore_limit_written[OF this v, of os s2]
    show "\<exists>s3 r. restore_limit os s2 ctx = Some s3 \<and>
               events_since s2 s3 =
                 [EWrite (limit_path ctx) (take 127 (backup_limit ctx @ [newline])) r]"
      by (auto simp: events_since_def)
  qed
  have fallback: "(had_backup ctx = 0 \<or> backup_limit ctx = []) \<and> ver ctx = CGROUP_V2 \<longrightarrow>
            (\<exists>s3 r. restore_limit os s2 ctx = Some s3 \<and>
               events_since s2 s3 = [EWrite (limit_path ctx) (''max'' @ [newline]) r])"
  proof
    assume "(had_backup ctx = 0 \<or> backup_limit ctx = []) \<and> ver ctx = CGROUP_V2"
    then have "restore_val ctx = Some ''max''"
      by (auto simp: restore_val_def strcpy_into_def)
    from restore_limit_written[OF this v, of os s2]
    show "\<exists>s3 r. restore_limit os s2 ctx = Some s3 \<and>
               events_since s2 s3 = [EWrite (limit_path ctx) (''max'' @ [newline]) r]"
      by (auto simp: events_since_def)
  qed
  from cap kept fallback show ?thesis by blast
qed

theorem restore_writes_back_witness:
  "fst (setup_cgroup_for_pid sim_os (init host_v2_capped) 1234) = 0 \<and>
   backup_limit (fst (snd (setup_cgroup_for_pid sim_os (init host_v2_capped) 1234))) = ''1073741824'' \<and>
   (\<exists>s3 r. restore_limit sim_os (init host_v2_capped)
               (fst (snd (setup_cgroup_for_pid sim_os (init host_v2_capped) 1234))) = Some s3 \<and>
      events_since (init host_v2_capped) s3 =
        [EWrite ''/sys/fs/cgroup/swapout/1234/memory.high'' (''1073741824'' @ [newline]) r]) \<and>
   fst (setup_cgroup_for_pid sim_os (init host_v2_shrinking) 1234) = 0 \<and>
   had_backup (fst (snd (setup_cgroup_for_pid sim_os (init host_v2_shrinking) 1234))) = 0 \<and>
   (\<exists>s3 r. restore_limit sim_os (init host_v2_shrinking)
               (fst (snd (setup_cgroup_for_pid sim_os (init host_v2_shrinking) 1234))) = Some s3 \<and>
      events_since (init host_v2_shrinking) s3 =
        [EWrite ''/sys/fs/cgroup/swapout/1234/memory.high'' (''max'' @ [newline]) r])"
proof -
  let ?r = "setup_cgroup_for_pid sim_os (init host_v2_capped) 1234"
  have "case ?r of (rc, ctx, s') \<Rightarrow> rc = 0 \<and> ctx =
      \<lparr>ver = CGROUP_V2, group_dir = ''/sys/fs/cgroup/swapout/1234'',
       procs_path = ''/sys/fs/cgroup/swapout/1234/cgroup.procs'',
       limit_path = ''/sys/fs/cgroup/swapout/1234/memory.high'',
       backup_limit = ''1073741824'', had_backup = 1\<rparr>"
    by (simp add: str_defs sys_defs prog_defs sim_defs)
  then have rc: "fst ?r = 0" and bk: "backup_limit (fst (snd ?r)) = ''1073741824''"
    and hb: "had_backup (fst (snd ?r)) = 1"
    and lp: "limit_path (fst (snd ?r)) = ''/sys/fs/cgroup/swapout/1234/memory.high''"
    by (simp_all add: case_prod_beta)
  have su: "?r = (0, fst (snd ?r), snd (snd ?r))"
    using rc by (simp add: prod_eq_iff)
  from restore_writes_back[OF su, where ?s2.0 = "init host_v2_capped"] hb bk
  have "\<exists>s3 r. restore_limit sim_os (init host_v2_capped) (fst (snd ?r)) = Some s3 \<and>
      events_since (init host_v2_capped) s3 =
        [EWrite (limit_path (fst (snd ?r))) (take 127 (backup_limit (fst (snd ?r)) @ [newline])) r]"
    by simp
  then have kept: "\<exists>s3 r. restore_limit sim_os (init host_v2_capped) (fst (snd ?r)) = Some s3 \<and>
      events_since (init host_v2_capped) s3 =
        [EWrite ''/sys/fs/cgroup/swapout/1234/memory.high'' (''1073741824'' @ [newline]) r]"
    using bk lp by simp
  let ?q = "setup_cgroup_for_pid sim_os (init host_v2_shrinking) 1234"
  have "case ?q of (rc, ctx, s') \<Rightarrow> rc = 0 \<and> ctx =
      \<lparr>ver = CGROUP_V2, group_dir = ''/sys/fs/cgroup/swapout/1234'',
       procs_path = ''/sys/fs/cgroup/swapout/1234/cgroup.procs'',
       limit_path = ''/sys/fs/cgroup/swapout/1234/memory.high'',
       backup_limit = [], had_backup = 0\<rparr>"
    by (simp add: str_defs sys_defs prog_defs sim_defs)
  then have rc': "fst ?q = 0" and hb': "had_backup (fst (snd ?q)) = 0"
    and v': "ver (fst (snd ?q)) = CGROUP_V2"
    and lp': "limit_path (fst (snd ?q)) = ''/sys/fs/cgroup/swapout/1234/memory.high''"
    by (simp_all add: case_prod_beta)
  have su': "?q = (0, fst (snd ?q), snd (snd ?q))"
    using rc' by (simp add: prod_eq_iff)
  from restore_writes_back[OF su', where ?s2.0 = "init host_v2_shrinking"] hb' v'
  have "\<exists>s3 r. restore_limit sim_os (init host_v2_shrinking) (fst (snd ?q)) = Some s3 \<and>
      events_since (init host_v2_shrinking) s3 =
        [EWrite (limit_path (fst (snd ?q))) (''max'' @ [newline]) r]"
    by simp
  then have fallback: "\<exists>s3 r. restore_limit sim_os (init host_v2_shrinking) (fst (snd ?q)) = Some s3 \<and>
      events_since (init host_v2_shrinking) s3 =
        [EWrite ''/sys/fs/cgroup/swapout/1234/memory.high'' (''max'' @ [newline]) r]"
    using lp' by simp
  show ?thesis
    by (intro conjI rc bk kept rc' hb' fallback)
qed

text \<open>
  C2 as stated does not hold: on this host the limit file is readable and reads as
  empty; the captured text is empty, and what restore writes is \<^verbatim>\<open>max\<close>.
\<close>

theorem empty_original_not_written_back:
  "fst (main sim_os host_v2_stale [] [1234]) = Some 0 \<and>
   filter is_read (trace (snd (main sim_os host_v2_stale [] [1234])))
     = [ERead ''/sys/fs/cgroup/swapout/1234/memory.high'' (Some [])] \<and>
   had_backup (fst (snd (setup_cgroup_for_pid sim_os (init host_v2_stale) 1234))) = 1 \<and>
   backup_limit (fst (snd (setup_cgroup_for_pid sim_os (init host_v2_stale) 1234))) = [] \<and>
   filter is_write (trace (snd (main sim_os host_v2_stale [] [1234])))
     = [EWrite ''/sys/fs/cgroup/swapout/1234/cgroup.procs'' (''1234'' @ [newline]) (Written 5),
        EWrite ''/sys/fs/cgroup/swapout/1234/memory.high'' (''8388608'' @ [newline]) (Written 8),
        EWrite ''/sys/fs/cgroup/swapout/1234/memory.high'' (''max'' @ [newline]) (Written 4)]"
  by (simp add: str_defs sys_defs prog_defs sim_defs)

subsection \<open>The cgroup v1 fallback\<close>

text \<open>The v1 constant is 19 characters long; it is \<open>2 ^ 63 - 4096\<close> in decimal.\<close>

lemma v1_unlimited_length: "length v1_unlimited = 19"
  by (simp add: v1_unlimited_def)

lemma v1_unlimited_value: "v1_unlimited = show_int (2 ^ 63 - 4096)"
  by (simp add: v1_unlimited_def str_defs)

lemma v1_fallback_does_not_fit: "strcpy_into 16 v1_unlimited = None"
  by (simp add: strcpy_into_def v1_unlimited_def)

text \<open>
  C9. The property: when the limit file was readable at setup and its trimmed content
  is empty, restore writes the unlimited sentinel of the cgroup version and not the
  empty text. On cgroup v2 the sentinel is \<^verbatim>\<open>max\<close>, which fits the buffer it is built
  in, and is written. On cgroup v1 the program has no defined behaviour from there: the
  limit file below holds a single newline, the captured text is empty, and
  \<^verbatim>\<open>restore_limit\<close> copies the 19-digit constant and its terminator into the 16 bytes
  of \<^verbatim>\<open>fallback\<close>. The writes the run is known to make are the pid and the low limit.
\<close>

theorem v1_empty_original_restore:
  "filter is_read (trace (snd (main sim_os host_v1_stale [] [1234])))
     = [ERead ''/sys/fs/cgroup/memory/swapout/1234/memory.limit_in_bytes'' (Some [newline])] \<and>
   had_backup (fst (snd (setup_cgroup_for_pid sim_os (init host_v1_stale) 1234))) = 1 \<and>
   backup_limit (fst (snd (setup_cgroup_for_pid sim_os (init host_v1_stale) 1234))) = [] \<and>
   restore_val (fst (snd (setup_cgroup_for_pid sim_os (init host_v1_stale) 1234))) = None \<and>
   fst (main sim_os host_v1_stale [] [1234]) = None \<and>
   filter is_write (trace (snd (main sim_os host_v1_stale [] [1234])))
     = [EWrite ''/sys/fs/cgroup/memory/swapout/1234/cgroup.procs'' (''1234'' @ [newline]) (Written 5),
        EWrite ''/sys/fs/cgroup/memory/swapout/1234/memory.limit_in_bytes''
          (''8388608'' @ [newline]) (Written 8)]"
  by (simp add: str_defs sys_defs prog_defs sim_defs)

subsection \<open>Restore, cleanup and the exit code\<close>

text \<open>
  Outside the v1 fallback the run ends as the program intends. Once the limit has been
  applied, whatever way the poll loop stops, the calls that follow are exactly one write
  of the restore text to the limit file and then one \<^verbatim>\<open>rmdir\<close> of the group directory,
  whatever the write returned, and the exit code is 0.
\<close>

lemma after_limit_applied:
  assumes su: "setup_cgroup_for_pid os s p = (0, ctx, s1)"
    and ap: "apply_low_limit os s1 ctx (limit_mb cfg) = (0, s2)"
    and pl: "poll_loop os p (target_rss_kb cfg) (interval cfg) (max_iter cfg) 0 s2 = (st, s3)"
    and rv: "restore_val ctx = Some v"
  shows "\<exists>s4 r1 r2. run_swapout os s cfg p = (Some 0, s4) \<and>
           trace s4 = trace s3 @ [EWrite (limit_path ctx) (take 127 (v @ [newline])) r1,
                                  ERmdir (group_dir ctx) r2]"
proof -
  from setup_ok_context[OF su] have c: "ver ctx \<noteq> CGROUP_NONE" "group_dir ctx \<noteq> []"
    by simp_all
  have "run_swapout os s cfg p = restore_and_cleanup os s3 ctx 0"
    using su ap pl by (simp add: run_swapout_def)
  with restore_and_cleanup_defined[OF rv c, of os s3 0] show ?thesis by simp
qed

text \<open>When applying the limit fails, the same two calls follow and the exit code is 1.\<close>

lemma after_failed_apply:
  assumes su: "setup_cgroup_for_pid os s p = (0, ctx, s1)"
    and ap: "apply_low_limit os s1 ctx (limit_mb cfg) = (rc2, s2)" and f: "rc2 \<noteq> 0"
    and rv: "restore_val ctx = Some v"
  shows "\<exists>s4 r1 r2. run_swapout os s cfg p = (Some 1, s4) \<and>
           trace s4 = trace s2 @ [EWrite (limit_path ctx) (take 127 (v @ [newline])) r1,
                                  ERmdir (group_dir ctx) r2]"
proof -
  from setup_ok_context[OF su] have c: "ver ctx \<noteq> CGROUP_NONE" "group_dir ctx \<noteq> []"
    by simp_all
  have "run_swapout os s cfg p = restore_and_cleanup os s2 ctx 1"
    using su ap f by (simp add: run_swapout_def)
  with restore_and_cleanup_defined[OF rv c, of os s2 1] show ?thesis by simp
qed

text \<open>In the v1 fallback the run has no defined end.\<close>

lemma v1_fallback_undefined:
  assumes su: "setup_cgroup_for_pid os s p = (0, ctx, s1)"
    and v1: "ver ctx = CGROUP_V1" and nb: "had_backup ctx = 0 \<or> backup_limit ctx = []"
  shows "fst (run_swapout os s cfg p) = None"
proof -
  have rv: "restore_val ctx = None" using v1 nb by (simp add: restore_val_None)
  have v: "ver ctx \<noteq> CGROUP_NONE" using v1 by simp
  obtain rc2 s2 where ap: "apply_low_limit os s1 ctx (limit_mb cfg) = (rc2, s2)"
    by (cases "apply_low_limit os s1 ctx (limit_mb cfg)")
  obtain st s3 where pl: "poll_loop os p (target_rss_kb cfg) (interval cfg) (max_iter cfg) 0 s2 = (st, s3)"
    by (cases "poll_loop os p (target_rss_kb cfg) (interval cfg) (max_iter cfg) 0 s2")
  show ?thesis
    using su ap pl restore_and_cleanup_undefined[OF rv v, of os s2 1]
      restore_and_cleanup_undefined[OF rv v, of os s3 0]
    by (simp add: run_swapout_def)
qed

text \<open>The exits before the limit is applied.\<close>

lemma parse_opts_codes: "parse_opts opts c = Inl rc \<Longrightarrow> rc = 0 \<or> rc = 1"
  by (induction opts c rule: parse_opts.induct) auto

lemma parse_opts_help:
  "Opt_unknown \<notin> set pre \<Longrightarrow> Opt_h \<notin> set pre \<Longrightarrow> parse_opts (pre @ Opt_h # rest) c = Inl 0"
  by (induction pre c rule: parse_opts.induct) auto

lemma parse_opts_unknown:
  "Opt_unknown \<notin> set pre \<Longrightarrow> Opt_h \<notin> set pre \<Longrightarrow>
   parse_opts (pre @ Opt_unknown # rest) c = Inl 1"
  by (induction pre c rule: parse_opts.induct) auto

lemma main_stops_in_options:
  "parse_opts opts default_config = Inl rc \<Longrightarrow> main os w opts args = (Some rc, init w)"
  by (simp add: main_def)

lemma main_early_exits:
  assumes "parse_opts opts default_config = Inr cfg"
  shows "main os w opts [] = (Some 1, init w)"
    and "p \<le> 0 \<Longrightarrow> main os w opts (p # rest) = (Some 1, init w)"
    and "0 < p \<Longrightarrow> file_exists os (init w) (proc_path p) = (False, s1) \<Longrightarrow>
           main os w opts (p # rest) = (Some 1, s1)"
    and "0 < p \<Longrightarrow> file_exists os (init w) (proc_path p) = (True, s1) \<Longrightarrow>
           main os w opts (p # rest) = run_swapout os s1 cfg p"
  using assms by (simp_all add: main_def)

lemma run_swapout_setup_failed:
  "setup_cgroup_for_pid os s p = (rc, ctx, s1) \<Longrightarrow> rc \<noteq> 0 \<Longrightarrow>
     run_swapout os s cfg p = (Some 1, s1)"
  by (simp add: run_swapout_def)

text \<open>
  C1. The property: on every run in which the limit write succeeds, however the poll
  loop stops, \<^verbatim>\<open>restore_limit\<close> and then \<^verbatim>\<open>cleanup_cgroup\<close> each run exactly once
  before the process exits, and a failed restore write does not keep cleanup from
  running. The program has it on every run where \<^verbatim>\<open>restore_limit\<close> has a defined
  result (\<open>after_limit_applied\<close>), and not on cgroup v1 without a usable original
  limit. On the v1 host below the limit file cannot be read; the run applies the limit,
  sees the process under the target at the first sample and enters
  \<^verbatim>\<open>restore_limit\<close>, which overruns \<^verbatim>\<open>fallback\<close>: the run has no defined exit, and
  neither a restore write nor an \<^verbatim>\<open>rmdir\<close> is among the calls it is known to make.
\<close>

theorem v1_run_stops_in_restore:
  "sampled (trace (snd (main sim_os host_v1_done [] [1234]))) = [Some (rss_line 8000)] \<and>
   filter is_write (trace (snd (main sim_os host_v1_done [] [1234])))
     = [EWrite ''/sys/fs/cgroup/memory/swapout/1234/cgroup.procs'' (''1234'' @ [newline]) (Written 5),
        EWrite ''/sys/fs/cgroup/memory/swapout/1234/memory.limit_in_bytes''
          (''8388608'' @ [newline]) (Written 8)] \<and>
   filter is_rmdir (trace (snd (main sim_os host_v1_done [] [1234]))) = [] \<and>
   fst (main sim_os host_v1_done [] [1234]) = None"
  by (simp add: str_defs sys_defs prog_defs sim_defs)

text \<open>
  C4. The property: the exit code is 0 on help, convergence, vanished process and
  timeout, and 1 on a missing or non-positive pid argument, a missing
  \<^verbatim>\<open>/proc/<pid>\<close>, no controller, failed provisioning and a failed limit write. The
  exits before the limit is applied have these codes (\<open>main_stops_in_options\<close>,
  \<open>main_early_exits\<close>, \<open>run_swapout_setup_failed\<close>), and so have the exits after it
  wherever \<^verbatim>\<open>restore_limit\<close> has a defined result (\<open>after_limit_applied\<close>,
  \<open>after_failed_apply\<close>). On a cgroup v1 host where the limit file cannot be read the
  program has no defined exit code (\<open>v1_fallback_undefined\<close>): below, once with the
  process gone at the first sample, once with a limit file that cannot be written.
\<close>

theorem v1_exit_code_undefined:
  "sampled (trace (snd (main sim_os host_v1_gone [] [1234]))) = [None] \<and>
   fst (main sim_os host_v1_gone [] [1234]) = None \<and>
   filter is_write (trace (snd (main sim_os host_v1_readonly [] [1234])))
     = [EWrite ''/sys/fs/cgroup/memory/swapout/1234/cgroup.procs'' (''1234'' @ [newline]) (Written 5),
        EWrite ''/sys/fs/cgroup/memory/swapout/1234/memory.limit_in_bytes''
          (''8388608'' @ [newline]) (OpenErr EACCES)] \<and>
   fst (main sim_os host_v1_readonly [] [1234]) = None"
  by (simp add: str_defs sys_defs prog_defs sim_defs)

subsection \<open>Two complete runs\<close>

text \<open>
  A cgroup v2 host, the resident size going 20000, 12000, 8000 kB against the default
  target of 16384 kB: the loop stops at the second sample, the limit is restored, the
  group directory removed, the exit code is 0.
\<close>

lemma run_v2_shrinking:
  "main sim_os host_v2_shrinking [] [1234] =
     (Some 0,
      \<lparr>world = host_v2_shrinking
         \<lparr>sim_dirs := [''/sys/fs/cgroup/swapout'', ''/proc/1234'', ''/sys/fs/cgroup''],
          sim_files :=
            [(''/sys/fs/cgroup/swapout/1234/memory.high'', ''max'' @ [newline]),
             (''/sys/fs/cgroup/swapout/1234/memory.high'', ''8388608'' @ [newline]),
             (''/sys/fs/cgroup/swapout/1234/cgroup.procs'', ''1234'' @ [newline]),
             (''/sys/fs/cgroup/cgroup.controllers'', ''cpu memory'' @ [newline])],
          sim_status := [Some (rss_line 8000)]\<rparr>,
       errno = ENOENT,
       trace =
         [EStat ''/proc/1234'' (StatOk True),
          EStat ''/sys/fs/cgroup/cgroup.controllers'' (StatOk False),
          EStat ''/sys/fs/cgroup'' (StatOk True),
          EStat ''/sys/fs/cgroup/swapout'' (StatErr ENOENT),
          EMkdir ''/sys/fs/cgroup/swapout'' Ok,
          EStat ''/sys/fs/cgroup/swapout/1234'' (StatErr ENOENT),
          EMkdir ''/sys/fs/cgroup/swapout/1234'' Ok,
          ERead ''/sys/fs/cgroup/swapout/1234/memory.high'' None,
          EWrite ''/sys/fs/cgroup/swapout/1234/cgroup.procs'' (''1234'' @ [newline]) (Written 5),
          EWrite ''/sys/fs/cgroup/swapout/1234/memory.high'' (''8388608'' @ [newline]) (Written 8),
          ESample ''/proc/1234/status'' (Some (rss_line 20000)),
          ESleep 1,
          ESample ''/proc/1234/status'' (Some (rss_line 12000)),
          EWrite ''/sys/fs/cgroup/swapout/1234/memory.high'' (''max'' @ [newline]) (Written 4),
          ERmdir ''/sys/fs/cgroup/swapout/1234'' Ok]\<rparr>)"
  by (simp add: str_defs sys_defs prog_defs sim_defs)

text \<open>
  A cgroup v1 host where the limit file holds a limit: the text is captured, written
  back at the end, and the run ends with exit code 0.
\<close>

lemma run_v1_capped:
  "fst (main sim_os host_v1_capped [] [1234]) = Some 0 \<and>
   trace (snd (main sim_os host_v1_capped [] [1234])) =
     [EStat ''/proc/1234'' (StatOk True),
      EStat ''/sys/fs/cgroup/cgroup.controllers'' (StatErr ENOENT),
      EStat ''/sys/fs/cgroup/memory'' (StatOk True),
      EStat ''/sys/fs/cgroup/memory'' (StatOk True),
      EStat ''/sys/fs/cgroup/memory/swapout'' (StatOk True),
      EStat ''/sys/fs/cgroup/memory/swapout/1234'' (StatOk True),
      ERead ''/sys/fs/cgroup/memory/swapout/1234/memory.limit_in_bytes''
        (Some (''1073741824'' @ [newline])),
      EWrite ''/sys/fs/cgroup/memory/swapout/1234/cgroup.procs'' (''1234'' @ [newline]) (Written 5),
      EWrite ''/sys/fs/cgroup/memory/swapout/1234/memory.limit_in_bytes''
        (''8388608'' @ [newline]) (Written 8),
      ESample ''/proc/1234/status'' (Some (rss_line 8000)),
      EWrite ''/sys/fs/cgroup/memory/swapout/1234/memory.limit_in_bytes''
        (''1073741824'' @ [newline]) (Written 11),
      ERmdir ''/sys/fs/cgroup/memory/swapout/1234'' Ok]"
  by (simp add: str_defs sys_defs prog_defs sim_defs)

end
